theory Spec2Isabelle
  imports Complex_Main "HOL-Library.Word"
begin

section \<open>Data model of \<^verbatim>\<open>backend/main.py\<close>\<close>

text \<open>
  A Python \<^verbatim>\<open>str\<close> is a sequence of Unicode code points, so \<^verbatim>\<open>len\<close>, slicing and
  \<^verbatim>\<open>strip\<close> count code points; it is modelled as a list of code point numbers.
  \<open>S\<close> writes an ASCII literal of the source as such a list.
\<close>

type_synonym pystr = "nat list"

type_synonym bytes = "8 word list"

definition S :: "string \<Rightarrow> pystr" where
  "S s = map of_char s"

text \<open>
  Exceptions. \<^verbatim>\<open>range\<close> raises \<^verbatim>\<open>ValueError\<close> for a zero step, \<^verbatim>\<open>str.join\<close> raises
  \<^verbatim>\<open>TypeError\<close> on an item that is not a string, and calling \<^verbatim>\<open>.get\<close> on \<^verbatim>\<open>None\<close> raises
  \<^verbatim>\<open>AttributeError\<close>; every other exception comes out of a call into an external library
  (class name and message).
\<close>

datatype py_exception =
    ValueError pystr
  | TypeError pystr
  | AttributeError pystr
  | LibraryError string pystr

fun exc_str :: "py_exception \<Rightarrow> pystr" where
  "exc_str (ValueError m) = m"
| "exc_str (TypeError m) = m"
| "exc_str (AttributeError m) = m"
| "exc_str (LibraryError c m) = m"

text \<open>Values stored in a Pinecone metadata dictionary.\<close>

datatype pyval =
    PStr pystr
  | PInt int
  | PBool bool
  | PStrList "pystr list"
  | PNone

text \<open>A dictionary literal is kept as an association list in the order the source writes its keys.\<close>

type_synonym metadata = "(pystr \<times> pyval) list"

record 'v vector_record =
  vec_id :: pystr
  vec_values :: 'v
  vec_metadata :: metadata

text \<open>
  A match of \<^verbatim>\<open>index.query\<close>: the code reads only its \<^verbatim>\<open>"metadata"\<close> key. The key may be
  absent (\<open>None\<close> below), or present with the value \<^verbatim>\<open>None\<close> or with a dictionary.
\<close>

datatype pyobj =
    NoneObj
  | DictObj metadata

record match =
  match_id :: pystr
  match_score :: real
  match_metadata :: "pyobj option"

record UploadFile =
  filename :: pystr
  file_content :: bytes

record uploaded_doc =
  doc_file_id :: pystr
  doc_file_name :: pystr
  doc_chunks :: int

record upload_result =
  result_status :: pystr
  result_uploaded :: "uploaded_doc list"

record AskRequest =
  question :: pystr

record AskResponse =
  answer :: pystr

text \<open>
  Every call that leaves the process (and every \<^verbatim>\<open>print\<close>) is an event; the list of
  events so far is the state that the endpoints thread through. The embedding vector is
  opaque to this code, hence the type parameter.
\<close>

datatype 'v event =
    Uuid4
  | StorageUpload pystr bytes
  | Print "pystr list"
  | EmbeddingsCreate pystr pystr
  | IndexUpsert "'v vector_record list"
  | TableInsert pystr "(pystr \<times> pystr) list"
  | IndexQuery 'v int bool
  | ChatCompletionsCreate pystr "(pystr \<times> pystr) list"

type_synonym 'v trace = "'v event list"

text \<open>
  The collaborators (\<^verbatim>\<open>uuid\<close>, Supabase storage and tables, PyPDF2, OpenAI, Pinecone).
  Each network call answers from the history of events before it and its arguments, and
  either raises or returns. \<open>PdfReader\<close> works on the bytes alone: it either raises or gives
  the pages, and \<^verbatim>\<open>extract_text\<close> of a page either raises or returns a string or \<^verbatim>\<open>None\<close>.
\<close>

record 'v env =
  uuid4 :: "'v trace \<Rightarrow> pystr"
  storage_upload :: "'v trace \<Rightarrow> pystr \<Rightarrow> bytes \<Rightarrow> py_exception + pystr"
  PdfReader :: "bytes \<Rightarrow> py_exception + (py_exception + pystr option) list"
  embeddings_create :: "'v trace \<Rightarrow> pystr \<Rightarrow> pystr \<Rightarrow> py_exception + 'v"
  index_upsert :: "'v trace \<Rightarrow> 'v vector_record list \<Rightarrow> py_exception + unit"
  table_insert :: "'v trace \<Rightarrow> pystr \<Rightarrow> (pystr \<times> pystr) list \<Rightarrow> py_exception + unit"
  index_query :: "'v trace \<Rightarrow> 'v \<Rightarrow> int \<Rightarrow> bool \<Rightarrow> py_exception + match list"
  chat_completions_create ::
    "'v trace \<Rightarrow> pystr \<Rightarrow> (pystr \<times> pystr) list \<Rightarrow> py_exception + pystr"

section \<open>Python primitives used by the code\<close>

text \<open>\<^verbatim>\<open>range(start, stop, step)\<close>: counting up for a positive step, down for a negative one.\<close>

function range_up :: "int \<Rightarrow> int \<Rightarrow> int \<Rightarrow> int list" where
  "range_up i stop step =
     (if 0 < step \<and> i < stop then i # range_up (i + step) stop step else [])"
  by pat_completeness auto
termination
  by (relation "measure (\<lambda>(i, stop, step). nat (stop - i))") auto

function range_down :: "int \<Rightarrow> int \<Rightarrow> int \<Rightarrow> int list" where
  "range_down i stop step =
     (if step < 0 \<and> stop < i then i # range_down (i + step) stop step else [])"
  by pat_completeness auto
termination
  by (relation "measure (\<lambda>(i, stop, step). nat (i - stop))") auto

declare range_up.simps [simp del] range_down.simps [simp del]

definition py_range :: "int \<Rightarrow> int \<Rightarrow> int \<Rightarrow> py_exception + int list" where
  "py_range start stop step =
     (if step = 0 then Inl (ValueError (S ''range() arg 3 must not be zero''))
      else if 0 < step then Inr (range_up start stop step)
      else Inr (range_down start stop step))"

text \<open>\<^verbatim>\<open>text[i:j]\<close>: a negative bound counts from the end, and both bounds are clamped.\<close>

definition slice_bound :: "nat \<Rightarrow> int \<Rightarrow> nat" where
  "slice_bound n k = (if k < 0 then nat (max 0 (int n + k)) else min (nat k) n)"

definition py_slice :: "'a list \<Rightarrow> int \<Rightarrow> int \<Rightarrow> 'a list" where
  "py_slice xs i j =
     (let lo = slice_bound (length xs) i; hi = slice_bound (length xs) j
      in take (hi - lo) (drop lo xs))"

text \<open>
  \<^verbatim>\<open>str.isspace\<close> of one code point, and \<^verbatim>\<open>str.strip()\<close>, which removes the leading and
  trailing whitespace.
\<close>

definition isspace :: "nat \<Rightarrow> bool" where
  "isspace c \<longleftrightarrow>
     (9 \<le> c \<and> c \<le> 13) \<or> (28 \<le> c \<and> c \<le> 32) \<or> c = 133 \<or> c = 160 \<or> c = 5760 \<or>
     (8192 \<le> c \<and> c \<le> 8202) \<or> c = 8232 \<or> c = 8233 \<or> c = 8239 \<or> c = 8287 \<or> c = 12288"

definition strip :: "pystr \<Rightarrow> pystr" where
  "strip s = rev (dropWhile isspace (rev (dropWhile isspace s)))"

text \<open>\<^verbatim>\<open>str(i)\<close> of an integer: decimal digits, with a minus sign when negative.\<close>

fun str_nat :: "nat \<Rightarrow> pystr" where
  "str_nat n = (if n < 10 then [48 + n] else str_nat (n div 10) @ [48 + n mod 10])"

definition str_int :: "int \<Rightarrow> pystr" where
  "str_int i = (if i < 0 then 45 # str_nat (nat (- i)) else str_nat (nat i))"

text \<open>
  \<^verbatim>\<open>sep.join(parts)\<close>: raises \<^verbatim>\<open>TypeError\<close> at the first item that is not a string, naming
  the item's position and type.
\<close>

fun type_name :: "pyval \<Rightarrow> pystr" where
  "type_name (PStr s) = S ''str''"
| "type_name (PInt i) = S ''int''"
| "type_name (PBool b) = S ''bool''"
| "type_name (PStrList l) = S ''list''"
| "type_name PNone = S ''NoneType''"

fun join_strs :: "pystr \<Rightarrow> pystr list \<Rightarrow> pystr" where
  "join_strs sep [] = []"
| "join_strs sep [x] = x"
| "join_strs sep (x # y # ys) = x @ sep @ join_strs sep (y # ys)"

fun str_items :: "nat \<Rightarrow> pyval list \<Rightarrow> py_exception + pystr list" where
  "str_items i [] = Inr []"
| "str_items i (PStr s # vs) =
     (case str_items (Suc i) vs of Inl e \<Rightarrow> Inl e | Inr ss \<Rightarrow> Inr (s # ss))"
| "str_items i (v # vs) =
     Inl (TypeError (S ''sequence item '' @ str_nat i @ S '': expected str instance, '' @
                     type_name v @ S '' found''))"

definition py_join :: "pystr \<Rightarrow> pyval list \<Rightarrow> py_exception + pystr" where
  "py_join sep parts =
     (case str_items 0 parts of Inl e \<Rightarrow> Inl e | Inr ss \<Rightarrow> Inr (join_strs sep ss))"

text \<open>\<^verbatim>\<open>d.get(key, default)\<close> on a dictionary.\<close>

definition dict_get :: "('k \<times> 'a) list \<Rightarrow> 'k \<Rightarrow> 'a \<Rightarrow> 'a" where
  "dict_get d k dflt = (case map_of d k of None \<Rightarrow> dflt | Some v \<Rightarrow> v)"

section \<open>Helper functions of the source\<close>

text \<open>
  \<^verbatim>\<open>extract_text_from_pdf_bytes\<close>: the loop over \<^verbatim>\<open>reader.pages\<close> appends
  \<^verbatim>\<open>page.extract_text() or ""\<close>.
\<close>

fun extract_pages :: "(py_exception + pystr option) list \<Rightarrow> pystr \<Rightarrow> py_exception + pystr" where
  "extract_pages [] text = Inr text"
| "extract_pages (page # pages) text =
     (case page of
        Inl e \<Rightarrow> Inl e
      | Inr None \<Rightarrow> extract_pages pages text
      | Inr (Some t) \<Rightarrow> extract_pages pages (text @ t))"

definition extract_text_from_pdf_bytes :: "'v env \<Rightarrow> bytes \<Rightarrow> py_exception + pystr" where
  "extract_text_from_pdf_bytes env file_bytes =
     (case PdfReader env file_bytes of
        Inl e \<Rightarrow> Inl e
      | Inr pages \<Rightarrow> extract_pages pages [])"

text \<open>
  \<^verbatim>\<open>chunk_text\<close>: \<^verbatim>\<open>for i in range(0, len(text), max_chars): chunks.append(text[i: i + max_chars])\<close>.
\<close>

definition chunk_text :: "pystr \<Rightarrow> int \<Rightarrow> py_exception + pystr list" where
  "chunk_text text max_chars =
     (case py_range 0 (int (length text)) max_chars of
        Inl e \<Rightarrow> Inl e
      | Inr is \<Rightarrow> Inr (map (\<lambda>i. py_slice text i (i + max_chars)) is))"

text \<open>
  \<^verbatim>\<open>get_embedding\<close> and \<^verbatim>\<open>generate_answer\<close>: one call each; the projection of the response
  (\<^verbatim>\<open>response.data[0].embedding\<close>, \<^verbatim>\<open>response.choices[0].message.content\<close>) is part of
  the collaborator. The sampling temperature, a float constant, is left out of the event.
\<close>

definition get_embedding :: "'v env \<Rightarrow> pystr \<Rightarrow> 'v trace \<Rightarrow> (py_exception + 'v) \<times> 'v trace" where
  "get_embedding env text tr =
     (embeddings_create env tr (S ''text-embedding-3-small'') text,
      tr @ [EmbeddingsCreate (S ''text-embedding-3-small'') text])"

definition chat_messages :: "pystr \<Rightarrow> pystr \<Rightarrow> (pystr \<times> pystr) list" where
  "chat_messages q context =
     [(S ''system'',
       S ''You are an AI assistant that answers questions based on the provided PDF context.''),
      (S ''user'', S ''Context:'' @ [10] @ context @ [10, 10] @ S ''Question: '' @ q)]"

definition generate_answer ::
  "'v env \<Rightarrow> pystr \<Rightarrow> pystr \<Rightarrow> 'v trace \<Rightarrow> (py_exception + pystr) \<times> 'v trace" where
  "generate_answer env q context tr =
     (chat_completions_create env tr (S ''gpt-4o-mini'') (chat_messages q context),
      tr @ [ChatCompletionsCreate (S ''gpt-4o-mini'') (chat_messages q context)])"

section \<open>The endpoints\<close>

subsection \<open>\<^verbatim>\<open>upload_pdfs\<close>\<close>

text \<open>
  The inner loop \<^verbatim>\<open>for i, chunk in enumerate(chunks)\<close>: a chunk that is empty after
  \<^verbatim>\<open>strip()\<close> is skipped by \<^verbatim>\<open>continue\<close>; any other chunk is embedded (which may raise)
  and appended to \<^verbatim>\<open>vectors\<close> under the index \<open>i\<close> that \<^verbatim>\<open>enumerate\<close> gave it.
\<close>

fun build_vectors ::
  "'v env \<Rightarrow> pystr \<Rightarrow> pystr \<Rightarrow> (nat \<times> pystr) list \<Rightarrow> 'v vector_record list \<Rightarrow> 'v trace \<Rightarrow>
   (py_exception + 'v vector_record list) \<times> 'v trace" where
  "build_vectors env fid fname [] vectors tr = (Inr vectors, tr)"
| "build_vectors env fid fname ((i, chunk) # rest) vectors tr =
     (if strip chunk = [] then build_vectors env fid fname rest vectors tr
      else
        (case get_embedding env chunk tr of
           (Inl e, tr1) \<Rightarrow> (Inl e, tr1)
         | (Inr emb, tr1) \<Rightarrow>
             build_vectors env fid fname rest
               (vectors @
                [\<lparr>vec_id = fid @ S ''_'' @ str_int (int i),
                  vec_values = emb,
                  vec_metadata =
                    [(S ''file_id'', PStr fid),
                     (S ''file_name'', PStr fname),
                     (S ''chunk_index'', PInt (int i)),
                     (S ''text'', PStr chunk)]\<rparr>])
               tr1))"

text \<open>
  One iteration of \<^verbatim>\<open>for file in files\<close>, up to the entry appended to
  \<^verbatim>\<open>uploaded_docs\<close>. Only the insert into the \<^verbatim>\<open>documents\<close> table stands in a
  \<^verbatim>\<open>try\<close>/\<^verbatim>\<open>except\<close>; every other exception leaves the iteration.
\<close>

definition upload_one ::
  "'v env \<Rightarrow> UploadFile \<Rightarrow> 'v trace \<Rightarrow> (py_exception + uploaded_doc) \<times> 'v trace" where
  "upload_one env file tr =
     (let file_id = uuid4 env tr;
          tr0 = tr @ [Uuid4];
          file_bytes = file_content file;
          path_on_bucket = file_id @ S ''/'' @ filename file
      in
        case storage_upload env tr0 path_on_bucket file_bytes of
          Inl e \<Rightarrow> (Inl e, tr0 @ [StorageUpload path_on_bucket file_bytes])
        | Inr res \<Rightarrow>
            (let tr1 = tr0 @ [StorageUpload path_on_bucket file_bytes,
                              Print [S ''Supabase upload response:'', res]]
             in
               case extract_text_from_pdf_bytes env file_bytes of
                 Inl e \<Rightarrow> (Inl e, tr1)
               | Inr text \<Rightarrow>
                   (case chunk_text text 1000 of
                      Inl e \<Rightarrow> (Inl e, tr1)
                    | Inr chunks \<Rightarrow>
                        (case build_vectors env file_id (filename file)
                                (enumerate 0 chunks) [] tr1 of
                           (Inl e, tr2) \<Rightarrow> (Inl e, tr2)
                         | (Inr vectors, tr2) \<Rightarrow>
                             (case (if vectors \<noteq> []
                                    then (index_upsert env tr2 vectors,
                                          tr2 @ [IndexUpsert vectors])
                                    else (Inr (), tr2)) of
                                (Inl e, tr3) \<Rightarrow> (Inl e, tr3)
                              | (Inr u, tr3) \<Rightarrow>
                                  (let row = [(S ''id'', file_id),
                                              (S ''file_name'', filename file),
                                              (S ''storage_path'', path_on_bucket)];
                                       tr4 = tr3 @ [TableInsert (S ''documents'') row];
                                       tr5 =
                                         (case table_insert env tr3 (S ''documents'') row of
                                            Inl e \<Rightarrow>
                                              tr4 @
                                              [Print
                                                 [S ''Error inserting into Supabase documents table:'',
                                                  exc_str e]]
                                          | Inr u' \<Rightarrow> tr4)
                                   in
                                     (Inr \<lparr>doc_file_id = file_id,
                                           doc_file_name = filename file,
                                           doc_chunks = int (length chunks)\<rparr>,
                                      tr5)))))))"

fun upload_loop ::
  "'v env \<Rightarrow> UploadFile list \<Rightarrow> uploaded_doc list \<Rightarrow> 'v trace \<Rightarrow>
   (py_exception + uploaded_doc list) \<times> 'v trace" where
  "upload_loop env [] uploaded_docs tr = (Inr uploaded_docs, tr)"
| "upload_loop env (file # files) uploaded_docs tr =
     (case upload_one env file tr of
        (Inl e, tr') \<Rightarrow> (Inl e, tr')
      | (Inr doc, tr') \<Rightarrow> upload_loop env files (uploaded_docs @ [doc]) tr')"

definition upload_pdfs ::
  "'v env \<Rightarrow> UploadFile list \<Rightarrow> 'v trace \<Rightarrow> (py_exception + upload_result) \<times> 'v trace" where
  "upload_pdfs env files tr =
     (case upload_loop env files [] tr of
        (Inl e, tr') \<Rightarrow> (Inl e, tr')
      | (Inr uploaded_docs, tr') \<Rightarrow>
          (Inr \<lparr>result_status = S ''ok'', result_uploaded = uploaded_docs\<rparr>, tr'))"

subsection \<open>\<^verbatim>\<open>ask_question\<close>\<close>

definition no_answer :: pystr where
  "no_answer = S ''I could not find relevant information in the uploaded PDFs.''"

definition separator :: pystr where
  "separator = [10, 10] @ S ''---'' @ [10, 10]"

text \<open>
  The loop body: \<^verbatim>\<open>md = match.get("metadata", {})\<close> gives the empty dictionary only when the
  key is absent, and \<^verbatim>\<open>text = md.get("text", "")\<close> raises when \<open>md\<close> is \<^verbatim>\<open>None\<close>.
\<close>

definition match_text :: "match \<Rightarrow> py_exception + pyval" where
  "match_text m =
     (let md = (case match_metadata m of None \<Rightarrow> DictObj [] | Some v \<Rightarrow> v)
      in case md of
           NoneObj \<Rightarrow>
             Inl (AttributeError
                    ([39] @ S ''NoneType'' @ [39] @ S '' object has no attribute '' @
                     [39] @ S ''get'' @ [39]))
         | DictObj d \<Rightarrow> Inr (dict_get d (S ''text'') (PStr [])))"

text \<open>The loop \<^verbatim>\<open>for match in query_res["matches"]\<close>, which appends each text to \<^verbatim>\<open>context_parts\<close>.\<close>

fun collect_texts :: "match list \<Rightarrow> pyval list \<Rightarrow> py_exception + pyval list" where
  "collect_texts [] context_parts = Inr context_parts"
| "collect_texts (m # ms) context_parts =
     (case match_text m of
        Inl e \<Rightarrow> Inl e
      | Inr t \<Rightarrow> collect_texts ms (context_parts @ [t]))"

definition ask_question ::
  "'v env \<Rightarrow> AskRequest \<Rightarrow> 'v trace \<Rightarrow> (py_exception + AskResponse) \<times> 'v trace" where
  "ask_question env payload tr =
     (let q = question payload in
        case get_embedding env q tr of
          (Inl e, tr1) \<Rightarrow> (Inl e, tr1)
        | (Inr q_emb, tr1) \<Rightarrow>
            (let tr2 = tr1 @ [IndexQuery q_emb 5 True] in
               case index_query env tr1 q_emb 5 True of
                 Inl e \<Rightarrow> (Inl e, tr2)
               | Inr matches \<Rightarrow>
                   (case collect_texts matches [] of
                      Inl e \<Rightarrow> (Inl e, tr2)
                    | Inr context_parts \<Rightarrow>
                        (case py_join separator context_parts of
                           Inl e \<Rightarrow> (Inl e, tr2)
                         | Inr context \<Rightarrow>
                             if strip context = [] then (Inr \<lparr>answer = no_answer\<rparr>, tr2)
                             else
                               (case generate_answer env q context tr2 of
                                  (Inl e, tr3) \<Rightarrow> (Inl e, tr3)
                                | (Inr a, tr3) \<Rightarrow> (Inr \<lparr>answer = a\<rparr>, tr3))))))"

section \<open>Observations on a trace\<close>

text \<open>The records handed to \<^verbatim>\<open>index.upsert\<close>, call by call, and the prompts sent to the chat model.\<close>

fun upsert_calls :: "'v trace \<Rightarrow> 'v vector_record list list" where
  "upsert_calls [] = []"
| "upsert_calls (IndexUpsert vs # tr) = vs # upsert_calls tr"
| "upsert_calls (ev # tr) = upsert_calls tr"

fun embedded_texts :: "'v trace \<Rightarrow> pystr list" where
  "embedded_texts [] = []"
| "embedded_texts (EmbeddingsCreate m t # tr) = t # embedded_texts tr"
| "embedded_texts (ev # tr) = embedded_texts tr"

fun chat_calls :: "'v trace \<Rightarrow> (pystr \<times> pystr) list list" where
  "chat_calls [] = []"
| "chat_calls (ChatCompletionsCreate m msgs # tr) = msgs # chat_calls tr"
| "chat_calls (ev # tr) = chat_calls tr"

text \<open>The \<^verbatim>\<open>chunk_index\<close> stored in a record's metadata.\<close>

definition chunk_index :: "'v vector_record \<Rightarrow> pyval option" where
  "chunk_index v = map_of (vec_metadata v) (S ''chunk_index'')"

text \<open>
  What a document's chunks lead to: the chunks that the inner loop does not skip, each with
  the index \<^verbatim>\<open>enumerate\<close> gave it, the identifier and metadata of the record built for
  such a chunk, and the chunks of a file (none when extraction raises).
\<close>

definition kept_chunks :: "pystr list \<Rightarrow> (nat \<times> pystr) list" where
  "kept_chunks chunks = filter (\<lambda>(i, chunk). strip chunk \<noteq> []) (enumerate 0 chunks)"

definition record_of :: "pystr \<Rightarrow> pystr \<Rightarrow> nat \<times> pystr \<Rightarrow> pystr \<times> metadata" where
  "record_of fid fname ic =
     (fid @ S ''_'' @ str_int (int (fst ic)),
      [(S ''file_id'', PStr fid), (S ''file_name'', PStr fname),
       (S ''chunk_index'', PInt (int (fst ic))), (S ''text'', PStr (snd ic))])"

definition chunks_of :: "'v env \<Rightarrow> UploadFile \<Rightarrow> pystr list" where
  "chunks_of env file =
     (case extract_text_from_pdf_bytes env (file_content file) of
        Inl e \<Rightarrow> []
      | Inr extracted \<Rightarrow> (case chunk_text extracted 1000 of Inl e \<Rightarrow> [] | Inr chunks \<Rightarrow> chunks))"

section \<open>Example collaborators and inputs\<close>

text \<open>
  Collaborators that always answer: identifiers count the events so far, the PDF reader
  rejects an empty file and otherwise yields one page holding the bytes as text, and an
  embedding is the length of its input.
\<close>

definition demo_env :: "nat list env" where
  "demo_env =
     \<lparr>uuid4 = (\<lambda>tr. S ''doc'' @ str_nat (length tr)),
      storage_upload = (\<lambda>tr path b. Inr (S ''stored'')),
      PdfReader = (\<lambda>b. if b = [] then Inl (LibraryError ''PdfReadError'' (S ''EOF marker not found''))
                       else Inr [Inr (Some (map unat b))]),
      embeddings_create = (\<lambda>tr model t. Inr [length t]),
      index_upsert = (\<lambda>tr vs. Inr ()),
      table_insert = (\<lambda>tr table row. Inr ()),
      index_query = (\<lambda>tr v k md. Inr []),
      chat_completions_create = (\<lambda>tr model msgs. Inr (S ''answer''))\<rparr>"

definition gap_file :: UploadFile where
  "gap_file = \<lparr>filename = S ''gap.pdf'', file_content = replicate 1000 32 @ [98]\<rparr>"

definition trailing_file :: UploadFile where
  "trailing_file = \<lparr>filename = S ''trailing.pdf'', file_content = replicate 1000 97 @ [32]\<rparr>"

definition long_file :: UploadFile where
  "long_file = \<lparr>filename = S ''long.pdf'', file_content = replicate 2500 97\<rparr>"

definition blank_file :: UploadFile where
  "blank_file = \<lparr>filename = S ''blank.pdf'', file_content = [32, 32, 32]\<rparr>"

definition small_file :: UploadFile where
  "small_file = \<lparr>filename = S ''small.pdf'', file_content = [104, 105]\<rparr>"

definition bad_file :: UploadFile where
  "bad_file = \<lparr>filename = S ''bad.pdf'', file_content = []\<rparr>"

text \<open>The same collaborators with a storage service that refuses every write.\<close>

definition storage_down_env :: "nat list env" where
  "storage_down_env =
     demo_env\<lparr>storage_upload :=
       (\<lambda>tr path b. Inl (LibraryError ''StorageException'' (S ''upload failed'')))\<rparr>"

text \<open>
  Matches as in the specification's example, a match without the metadata key, a match
  whose metadata is \<^verbatim>\<open>None\<close> (a vector stored without metadata), and indexes returning them.
\<close>

definition m0 :: match where
  "m0 = \<lparr>match_id = S ''doc0_0'', match_score = 0.9,
          match_metadata = Some (DictObj [(S ''text'', PStr (S ''A''))])\<rparr>"

definition m1 :: match where
  "m1 = \<lparr>match_id = S ''doc0_1'', match_score = 0.8,
          match_metadata = Some (DictObj [(S ''text'', PStr (S ''B''))])\<rparr>"


definition bare_match :: match where
  "bare_match = \<lparr>match_id = S ''other_7'', match_score = 0.7, match_metadata = Some NoneObj\<rparr>"

definition ask_env :: "nat list env" where
  "ask_env = demo_env\<lparr>index_query := (\<lambda>tr v k md. Inr [m0, m1])\<rparr>"


definition bare_env :: "nat list env" where
  "bare_env = demo_env\<lparr>index_query := (\<lambda>tr v k md. Inr [m0, bare_match])\<rparr>"

section \<open>Slices and ranges\<close>

lemma py_slice_window:
  assumes "0 \<le> i" "0 < m"
  shows "py_slice xs i (i + m) = take (nat m) (drop (nat i) xs)"
proof (cases "nat i \<le> length xs")
  case True
  then have lo: "slice_bound (length xs) i = nat i"
    using assms by (simp add: slice_bound_def)
  have hi: "slice_bound (length xs) (i + m) = min (nat i + nat m) (length xs)"
    using assms by (simp add: slice_bound_def nat_add_distrib)
  show ?thesis
  proof (cases "nat i + nat m \<le> length xs")
    case True
    then show ?thesis by (simp add: py_slice_def lo hi Let_def)
  next
    case False
    then show ?thesis using True by (simp add: py_slice_def lo hi Let_def)
  qed
next
  case False
  then have lo: "slice_bound (length xs) i = length xs"
    using assms by (simp add: slice_bound_def)
  have hi: "slice_bound (length xs) (i + m) = length xs"
    using assms False by (simp add: slice_bound_def)
  show ?thesis
    using False by (simp add: py_slice_def lo hi)
qed

lemma range_up_closed:
  "0 < m \<Longrightarrow> range_up i stop m = map (\<lambda>k. i + int k * m) [0..<nat ((stop - i + m - 1) div m)]"
proof (induction i stop m rule: range_up.induct)
  case (1 i stop step)
  show ?case
  proof (cases "i < stop")
    case True
    define n where "n = nat ((stop - (i + step) + step - 1) div step)"
    have "stop - i + step - 1 = step + (stop - (i + step) + step - 1)"
      by simp
    then have "(stop - i + step - 1) div step = (stop - (i + step) + step - 1) div step + 1"
      using 1(2) by (simp only: div_add_self1) 
    moreover have "0 \<le> (stop - (i + step) + step - 1) div step"
      using True 1(2) by (simp add: pos_imp_zdiv_nonneg_iff)
    ultimately have n: "nat ((stop - i + step - 1) div step) = Suc n"
      by (simp add: n_def)
    have "range_up i stop step = i # range_up (i + step) stop step"
      using True 1(2) by (subst range_up.simps) simp
    also have "\<dots> = i # map (\<lambda>k. (i + step) + int k * step) [0..<n]"
      using 1(1) True 1(2) by (simp add: n_def)
    also have "\<dots> = map (\<lambda>k. i + int k * step) [0..<Suc n]"
      by (simp add: upt_conv_Cons map_Suc_upt[symmetric] algebra_simps del: upt_Suc)
    finally show ?thesis by (simp only: n)
  next
    case False
    then have "stop - i + step - 1 < step" by simp
    then have "(stop - i + step - 1) div step \<le> 0"
      using 1(2) by (cases "0 \<le> stop - i + step - 1") (simp_all add: div_pos_pos_trivial div_neg_pos_less0 less_imp_le)
    moreover have "range_up i stop step = []"
      using False by (subst range_up.simps) simp
    ultimately show ?thesis by simp
  qed
qed

lemma chunks_concat:
  "0 < m \<Longrightarrow> 0 \<le> i \<Longrightarrow>
   concat (map (\<lambda>j. py_slice xs j (j + m)) (range_up i (int (length xs)) m)) = drop (nat i) xs"
proof (induction i "int (length xs)" m rule: range_up.induct)
  case (1 i step)
  show ?case
  proof (cases "i < int (length xs)")
    case True
    have unfold: "range_up i (int (length xs)) step = i # range_up (i + step) (int (length xs)) step"
      using True 1(2) by (subst range_up.simps) simp
    have IH: "concat (map (\<lambda>j. py_slice xs j (j + step)) (range_up (i + step) (int (length xs)) step))
        = drop (nat (i + step)) xs"
      using 1 True by simp
    have "drop (nat (i + step)) xs = drop (nat step) (drop (nat i) xs)"
      using 1(2,3) by (simp add: nat_add_distrib add.commute)
    then show ?thesis
      using 1(2,3) by (simp only: unfold list.map concat.simps IH py_slice_window append_take_drop_id)
  next
    case False
    have "range_up i (int (length xs)) step = []"
      using False by (subst range_up.simps) simp
    then show ?thesis using 1(3) False by simp
  qed
qed


lemma chunk_text_closed:
  assumes "0 < m"
  shows "chunk_text xs m =
    Inr (map (\<lambda>k. take (nat m) (drop (k * nat m) xs)) [0..<nat ((int (length xs) + m - 1) div m)])"
proof -
  have "py_slice xs (int k * m) (int k * m + m) = take (nat m) (drop (k * nat m) xs)" for k
    using assms by (simp add: py_slice_window nat_mult_distrib)
  then show ?thesis
    using assms by (simp add: chunk_text_def py_range_def range_up_closed o_def)
qed

lemma chunk_text_concat:
  assumes "0 < m" and "chunk_text xs m = Inr chunks"
  shows "concat chunks = xs"
  using assms chunks_concat[of m 0 xs] by (auto simp: chunk_text_def py_range_def)

lemma neg_div_ceil:
  assumes "0 < (m::int)"
  shows "- (- a div m) = (a + m - 1) div m"
proof (cases "a mod m = 0")
  case True
  have "m * (a div m) = a"
    using True by (simp add: mod_0_imp_dvd)
  then have "a + m - 1 = m * (a div m) + (m - 1)"
    by simp
  then have "(a + m - 1) div m = a div m"
    using assms by (intro int_div_pos_eq[where r = "m - 1"]) simp_all
  then show ?thesis
    using True assms by (simp add: zdiv_zminus1_eq_if)
next
  case False
  then have pos: "0 < a mod m"
    using assms by (simp add: less_le)
  have "a + m - 1 = m * (a div m + 1) + (a mod m - 1)"
    using mult_div_mod_eq[of m a] by (simp add: algebra_simps)
  moreover have "a mod m - 1 < m"
    using pos_mod_bound[OF assms, of a] by simp
  ultimately have "(a + m - 1) div m = a div m + 1"
    using pos by (intro int_div_pos_eq[where r = "a mod m - 1"]) simp_all
  then show ?thesis
    using False assms by (simp add: zdiv_zminus1_eq_if)
qed

lemma ceiling_div_pos:
  assumes "0 < (m::int)"
  shows "\<lceil>real n / real_of_int m\<rceil> = (int n + m - 1) div m"
  using ceiling_divide_eq_div[of "int n" m] neg_div_ceil[OF assms, of "int n"] by simp


lemma chunk_text_nat:
  assumes "0 < m"
  shows "chunk_text xs (int m) =
    Inr (map (\<lambda>k. take m (drop (k * m) xs)) [0..<(length xs + m - 1) div m])"
proof -
  have "int (length xs) + int m - 1 = int (length xs + m - 1)"
    using assms by (simp add: of_nat_diff)
  then have "(int (length xs) + int m - 1) div int m = int ((length xs + m - 1) div m)"
    by (simp only: zdiv_int)
  then have "nat ((int (length xs) + int m - 1) div int m) = (length xs + m - 1) div m"
    by (simp only: nat_int)
  then show ?thesis
    using assms chunk_text_closed[of "int m" xs] by simp
qed

lemma ceil_nat_bounds:
  assumes "0 < (m::nat)" "0 < len"
  shows "((len + m - 1) div m - 1) * m < len" "len \<le> ((len + m - 1) div m) * m"
    "0 < (len + m - 1) div m"
proof -
  define n where "n = (len + m - 1) div m"
  define r where "r = (len + m - 1) mod m"
  have eq: "n * m + r = len + m - 1"
    by (simp add: n_def r_def)
  have r: "r < m" using assms by (simp add: r_def)
  show "0 < (len + m - 1) div m"
    using assms by (simp add: div_greater_zero_iff)
  then have "0 < n" by (simp add: n_def)
  then obtain n' where n': "n = Suc n'" by (cases n) auto
  have "(n - 1) * m < len"
    using eq r assms by (simp add: n')
  then show "((len + m - 1) div m - 1) * m < len" by (simp add: n_def)
  have "len \<le> n * m" using eq r assms by linarith
  then show "len \<le> ((len + m - 1) div m) * m" by (simp add: n_def)
qed

section \<open>The chunker\<close>

text \<open>
  Claim C4. For every text \<open>T\<close> and every positive \<open>max_chars = M\<close>, \<open>chunk_text T M\<close> returns
  (it does not raise) a sequence of chunks whose concatenation in order is \<open>T\<close>, each of
  length at most \<open>M\<close>, as many as the ceiling of \<open>len(T) / M\<close>; for the empty text it is
  the empty sequence.
\<close>

theorem chunk_text_reconstructs:
  assumes "0 < M"
  shows "\<exists>chunks. chunk_text T M = Inr chunks \<and> concat chunks = T \<and>
           (\<forall>c\<in>set chunks. int (length c) \<le> M) \<and>
           int (length chunks) = \<lceil>real (length T) / real_of_int M\<rceil> \<and>
           (T = [] \<longrightarrow> chunks = [])"
proof -
  define chunks where
    "chunks = map (\<lambda>k. take (nat M) (drop (k * nat M) T)) [0..<nat ((int (length T) + M - 1) div M)]"
  have eq: "chunk_text T M = Inr chunks"
    using assms by (simp add: chunk_text_closed chunks_def)
  have cat: "concat chunks = T"
    using assms eq by (rule chunk_text_concat)
  have len: "\<forall>c\<in>set chunks. int (length c) \<le> M"
    using assms by (auto simp: chunks_def)
  have "0 \<le> (int (length T) + M - 1) div M"
    using assms by (simp add: pos_imp_zdiv_nonneg_iff)
  then have cnt: "int (length chunks) = \<lceil>real (length T) / real_of_int M\<rceil>"
    using assms by (simp add: chunks_def ceiling_div_pos)
  have "(M - 1) div M = 0"
    using assms by (simp add: div_pos_pos_trivial)
  then have emp: "T = [] \<longrightarrow> chunks = []"
    by (simp add: chunks_def)
  show ?thesis
    using eq cat len cnt emp by blast
qed

theorem chunk_text_reconstructs_witness:
  "(0::int) < 2 \<and>
   chunk_text [97, 98, 99, 100, 101] 2 = Inr [[97, 98], [99, 100], [101]] \<and>
   concat [[97, 98], [99, 100], [101::nat]] = [97, 98, 99, 100, 101] \<and>
   \<lceil>real (length [97, 98, 99, 100, 101::nat]) / real_of_int 2\<rceil> = 3"
proof -
  obtain chunks where c: "chunk_text [97, 98, 99, 100, 101] 2 = Inr chunks"
      "concat chunks = [97, 98, 99, 100, 101]"
      "int (length chunks) = \<lceil>real (length [97, 98, 99, 100, 101::nat]) / real_of_int 2\<rceil>"
    using chunk_text_reconstructs[of 2 "[97, 98, 99, 100, 101]"] by auto
  have "chunk_text [97, 98, 99, 100, 101] 2 = Inr [[97, 98], [99, 100], [101]]"
    by (simp add: chunk_text_def py_range_def range_up.simps py_slice_def slice_bound_def)
  with c show ?thesis by auto
qed

text \<open>
  Claim C10. For every non-empty text \<open>T\<close> and positive \<open>M\<close>, \<open>chunk_text T M\<close> returns at
  least one chunk, no chunk is empty, every chunk but the last has length exactly \<open>M\<close>, and
  the last has length \<open>len(T) - M * (ceil(len(T) / M) - 1)\<close>.
\<close>

theorem chunk_text_chunk_lengths:
  assumes "0 < M" and "T \<noteq> []"
  shows "\<exists>chunks. chunk_text T M = Inr chunks \<and> chunks \<noteq> [] \<and>
           (\<forall>c\<in>set chunks. c \<noteq> []) \<and>
           (\<forall>k. Suc k < length chunks \<longrightarrow> int (length (chunks ! k)) = M) \<and>
           int (length (last chunks)) =
             int (length T) - M * (\<lceil>real (length T) / real_of_int M\<rceil> - 1)"
proof -
  define m where "m = nat M"
  define n where "n = (length T + m - 1) div m"
  define chunks where "chunks = map (\<lambda>k. take m (drop (k * m) T)) [0..<n]"
  have m: "0 < m" "M = int m"
    using assms(1) by (simp_all add: m_def)
  have len: "0 < length T"
    using assms(2) by simp
  have eq: "chunk_text T M = Inr chunks"
    using m by (simp add: chunk_text_nat chunks_def n_def)
  have lo: "(n - 1) * m < length T" and hi: "length T \<le> n * m" and n: "0 < n"
    using ceil_nat_bounds[OF m(1) len] by (simp_all add: n_def)
  have start: "k * m < length T" if "k < n" for k
  proof -
    have "k \<le> n - 1"
      using that by simp
    then have "k * m \<le> (n - 1) * m"
      by (rule mult_le_mono1)
    then show ?thesis
      using lo by (rule le_less_trans)
  qed
  have ne: "chunks \<noteq> []"
    using n by (simp add: chunks_def)
  have nonempty: "\<forall>c\<in>set chunks. c \<noteq> []"
    using start m(1) by (fastforce simp: chunks_def)
  have full: "int (length (chunks ! k)) = M" if "Suc k < length chunks" for k
  proof -
    have k: "Suc k < n" using that by (simp add: chunks_def)
    then have "Suc k \<le> n - 1"
      by simp
    then have "Suc k * m \<le> (n - 1) * m"
      by (rule mult_le_mono1)
    then have "Suc k * m < length T"
      using lo by (rule le_less_trans)
    then have "k * m + m \<le> length T" by simp
    then show ?thesis
      using k by (simp add: chunks_def m(2))
  qed
  have "last chunks = take m (drop ((n - 1) * m) T)"
    using n by (simp add: chunks_def last_map last_upt)
  moreover have "length T - (n - 1) * m \<le> m"
  proof -
    obtain n' where "n = Suc n'" using n by (cases n) auto
    then show ?thesis using hi by simp
  qed
  ultimately have "length (last chunks) = length T - (n - 1) * m"
    by simp
  then have "int (length (last chunks)) = int (length T) - int m * (int n - 1)"
    using lo n by (simp add: of_nat_diff mult.commute)
  moreover have "\<lceil>real (length T) / real_of_int M\<rceil> = int n"
  proof -
    have "int (length T) + int m - 1 = int (length T + m - 1)"
      using m(1) by (simp add: of_nat_diff)
    then have "(int (length T) + int m - 1) div int m = int n"
      by (simp only: zdiv_int n_def)
    moreover have "\<lceil>real (length T) / real_of_int M\<rceil> = (int (length T) + M - 1) div M"
      using assms(1) by (rule ceiling_div_pos)
    ultimately show ?thesis
      by (simp only: m(2))
  qed
  ultimately have lastlen: "int (length (last chunks)) =
      int (length T) - M * (\<lceil>real (length T) / real_of_int M\<rceil> - 1)"
    by (simp add: m(2))
  show ?thesis
    using eq ne nonempty full lastlen by blast
qed

theorem chunk_text_chunk_lengths_witness:
  "(0::int) < 2 \<and> [97, 98, 99, 100, 101::nat] \<noteq> [] \<and>
   chunk_text [97, 98, 99, 100, 101] 2 = Inr [[97, 98], [99, 100], [101]] \<and>
   int (length (last [[97, 98], [99, 100], [101::nat]])) =
     int (length [97, 98, 99, 100, 101::nat]) -
     2 * (\<lceil>real (length [97, 98, 99, 100, 101::nat]) / real_of_int 2\<rceil> - 1)"
proof -
  obtain chunks where c: "chunk_text [97, 98, 99, 100, 101] 2 = Inr chunks"
      "int (length (last chunks)) =
         int (length [97, 98, 99, 100, 101::nat]) -
         2 * (\<lceil>real (length [97, 98, 99, 100, 101::nat]) / real_of_int 2\<rceil> - 1)"
    using chunk_text_chunk_lengths[of 2 "[97, 98, 99, 100, 101]"] by auto
  have "chunk_text [97, 98, 99, 100, 101] 2 = Inr [[97, 98], [99, 100], [101]]"
    by (simp add: chunk_text_def py_range_def range_up.simps py_slice_def slice_bound_def)
  with c show ?thesis by auto
qed

section \<open>Ingestion of one document\<close>

lemma strip_empty_iff: "strip s = [] \<longleftrightarrow> (\<forall>c\<in>set s. isspace c)"
proof
  assume "strip s = []"
  then have "\<forall>c\<in>set (dropWhile isspace s). isspace c"
    by (simp add: strip_def dropWhile_eq_Nil_conv)
  then have "dropWhile isspace s = []"
    using hd_dropWhile[of isspace s] by (cases "dropWhile isspace s") auto
  then show "\<forall>c\<in>set s. isspace c"
    by (simp add: dropWhile_eq_Nil_conv)
next
  assume "\<forall>c\<in>set s. isspace c"
  then have h: "dropWhile isspace s = []"
    by (simp add: dropWhile_eq_Nil_conv)
  show "strip s = []"
    unfolding strip_def h by simp
qed

lemma build_vectors_ok:
  "build_vectors env fid fname ics acc tr = (Inr vs, tr') \<Longrightarrow>
     map (\<lambda>v. (vec_id v, vec_metadata v)) vs =
       map (\<lambda>v. (vec_id v, vec_metadata v)) acc @
       map (record_of fid fname) (filter (\<lambda>(i, chunk). strip chunk \<noteq> []) ics) \<and>
     tr' = tr @ map (\<lambda>(i, chunk). EmbeddingsCreate (S ''text-embedding-3-small'') chunk)
                 (filter (\<lambda>(i, chunk). strip chunk \<noteq> []) ics)"
proof (induction ics arbitrary: acc tr)
  case Nil
  then show ?case by simp
next
  case (Cons ic ics)
  obtain i chunk where ic: "ic = (i, chunk)" by (cases ic)
  show ?case
  proof (cases "strip chunk = []")
    case True
    then show ?thesis using Cons ic by simp
  next
    case False
    then obtain emb where emb: "embeddings_create env tr (S ''text-embedding-3-small'') chunk = Inr emb"
      using Cons.prems ic by (cases "embeddings_create env tr (S ''text-embedding-3-small'') chunk")
        (simp_all add: get_embedding_def)
    then show ?thesis
      using Cons.prems ic False Cons.IH[of "acc @ [\<lparr>vec_id = fid @ S ''_'' @ str_int (int i),
                  vec_values = emb,
                  vec_metadata =
                    [(S ''file_id'', PStr fid),
                     (S ''file_name'', PStr fname),
                     (S ''chunk_index'', PInt (int i)),
                     (S ''text'', PStr chunk)]\<rparr>]" "tr @ [EmbeddingsCreate (S ''text-embedding-3-small'') chunk]"]
      by (simp add: get_embedding_def record_of_def)
  qed
qed

lemma upsert_calls_append: "upsert_calls (a @ b) = upsert_calls a @ upsert_calls b"
  by (induction a rule: upsert_calls.induct) simp_all

lemma embedded_texts_append: "embedded_texts (a @ b) = embedded_texts a @ embedded_texts b"
  by (induction a rule: embedded_texts.induct) simp_all

lemma chat_calls_append: "chat_calls (a @ b) = chat_calls a @ chat_calls b"
  by (induction a rule: chat_calls.induct) simp_all

lemma upsert_calls_embeddings:
  "upsert_calls (map (\<lambda>(i, chunk). EmbeddingsCreate m chunk) ics) = []"
  by (induction ics) auto

lemma embedded_texts_embeddings:
  "embedded_texts (map (\<lambda>(i, chunk). EmbeddingsCreate m chunk) ics) = map snd ics"
  by (induction ics) auto

lemma upload_one_success:
  assumes "upload_one env file tr = (Inr doc, tr')"
  obtains res extracted chunks vs where
    "storage_upload env (tr @ [Uuid4]) (uuid4 env tr @ S ''/'' @ filename file) (file_content file)
       = Inr res"
    "extract_text_from_pdf_bytes env (file_content file) = Inr extracted"
    "chunk_text extracted 1000 = Inr chunks"
    "doc = \<lparr>doc_file_id = uuid4 env tr, doc_file_name = filename file,
            doc_chunks = int (length chunks)\<rparr>"
    "map (\<lambda>v. (vec_id v, vec_metadata v)) vs =
       map (record_of (uuid4 env tr) (filename file)) (kept_chunks chunks)"
    "upsert_calls tr' = upsert_calls tr @ (if vs = [] then [] else [vs])"
    "embedded_texts tr' = embedded_texts tr @ map snd (kept_chunks chunks)"
proof -
  let ?fid = "uuid4 env tr"
  let ?path = "?fid @ S ''/'' @ filename file"
  obtain res where res: "storage_upload env (tr @ [Uuid4]) ?path (file_content file) = Inr res"
    using assms by (cases "storage_upload env (tr @ [Uuid4]) ?path (file_content file)")
      (simp_all add: upload_one_def Let_def)
  let ?tr1 = "tr @ [Uuid4, StorageUpload ?path (file_content file),
                    Print [S ''Supabase upload response:'', res]]"
  obtain extracted where extracted: "extract_text_from_pdf_bytes env (file_content file) = Inr extracted"
    using assms res by (cases "extract_text_from_pdf_bytes env (file_content file)")
      (simp_all add: upload_one_def Let_def)
  obtain chunks where chunks: "chunk_text extracted 1000 = Inr chunks"
    using assms res extracted by (cases "chunk_text extracted 1000") (simp_all add: upload_one_def Let_def)
  obtain r tr2 where bv: "build_vectors env ?fid (filename file) (enumerate 0 chunks) [] ?tr1 = (r, tr2)"
    by (cases "build_vectors env ?fid (filename file) (enumerate 0 chunks) [] ?tr1")
  obtain vs where vs: "r = Inr vs"
    using assms res extracted chunks bv by (cases r) (simp_all add: upload_one_def Let_def)
  note ok = build_vectors_ok[OF bv[unfolded vs]]
  have recs: "map (\<lambda>v. (vec_id v, vec_metadata v)) vs =
       map (record_of ?fid (filename file)) (kept_chunks chunks)"
    using ok by (simp add: kept_chunks_def)
  have tr2: "tr2 = ?tr1 @ map (\<lambda>(i, chunk). EmbeddingsCreate (S ''text-embedding-3-small'') chunk)
                 (kept_chunks chunks)"
    using ok by (simp add: kept_chunks_def)
  have up2: "upsert_calls tr2 = upsert_calls tr"
    by (simp add: tr2 upsert_calls_append upsert_calls_embeddings)
  have em2: "embedded_texts tr2 = embedded_texts tr @ map snd (kept_chunks chunks)"
    by (simp add: tr2 embedded_texts_append embedded_texts_embeddings)
  have doc: "doc = \<lparr>doc_file_id = ?fid, doc_file_name = filename file,
            doc_chunks = int (length chunks)\<rparr>"
    using assms res extracted chunks bv vs
    by (auto simp: upload_one_def Let_def split: if_splits sum.splits)
  have up: "upsert_calls tr' = upsert_calls tr @ (if vs = [] then [] else [vs])"
    using assms res extracted chunks bv vs up2
    by (auto simp: upload_one_def Let_def upsert_calls_append split: if_splits sum.splits)
  have em: "embedded_texts tr' = embedded_texts tr @ map snd (kept_chunks chunks)"
    using assms res extracted chunks bv vs em2
    by (auto simp: upload_one_def Let_def embedded_texts_append split: if_splits sum.splits)
  show thesis
    using that[OF res extracted chunks doc recs up em] .
qed

lemma enumerate_nth: "enumerate 0 xs = map (\<lambda>i. (i, xs ! i)) [0..<length xs]"
  by (rule nth_equalityI) (simp_all add: nth_enumerate_eq)

lemma kept_chunks_fst:
  "map fst (kept_chunks chunks) = filter (\<lambda>i. strip (chunks ! i) \<noteq> []) [0..<length chunks]"
  by (simp add: kept_chunks_def enumerate_nth filter_map o_def)

lemma kept_chunks_snd:
  "map snd (kept_chunks chunks) = filter (\<lambda>chunk. strip chunk \<noteq> []) chunks"
proof -
  have "kept_chunks chunks = filter ((\<lambda>chunk. strip chunk \<noteq> []) \<circ> snd) (enumerate 0 chunks)"
    by (simp add: kept_chunks_def o_def case_prod_unfold)
  then have "map snd (kept_chunks chunks) =
      filter (\<lambda>chunk. strip chunk \<noteq> []) (map snd (enumerate 0 chunks))"
    by (simp only: filter_map)
  then show ?thesis by simp
qed

lemma kept_chunks_all:
  assumes "\<forall>chunk\<in>set chunks. strip chunk \<noteq> []"
  shows "kept_chunks chunks = enumerate 0 chunks"
proof -
  have "\<forall>ic\<in>set (enumerate 0 chunks). strip (snd ic) \<noteq> []"
    using assms by (auto simp: in_set_enumerate_eq)
  then show ?thesis
    by (simp add: kept_chunks_def case_prod_unfold)
qed

lemma demo_chunks: "chunk_text (replicate 1000 32 @ [98]) 1000 = Inr [replicate 1000 32, [98]]"
proof -
  have "[0..<2] = [0, Suc 0]"
    by (simp add: numeral_2_eq_2)
  then show ?thesis
    using chunk_text_nat[of 1000 "replicate 1000 32 @ [98]"] by simp
qed

lemma demo_extract:
  "extract_text_from_pdf_bytes demo_env (replicate 1000 32 @ [98]) = Inr (replicate 1000 32 @ [98])"
  by (simp add: extract_text_from_pdf_bytes_def demo_env_def)

lemma blank_1000: "strip (replicate 1000 32) = []"
  by (simp add: strip_empty_iff isspace_def)

lemma nonblank_b: "strip [98] = [98]"
  by (simp add: strip_def isspace_def)

lemma demo_gap:
  "upload_one demo_env gap_file [] =
     (Inr \<lparr>doc_file_id = S ''doc0'', doc_file_name = S ''gap.pdf'', doc_chunks = 2\<rparr>,
      [Uuid4,
       StorageUpload (S ''doc0/gap.pdf'') (replicate 1000 32 @ [98]),
       Print [S ''Supabase upload response:'', S ''stored''],
       EmbeddingsCreate (S ''text-embedding-3-small'') [98],
       IndexUpsert [\<lparr>vec_id = S ''doc0_1'', vec_values = [1],
                      vec_metadata = [(S ''file_id'', PStr (S ''doc0'')),
                                      (S ''file_name'', PStr (S ''gap.pdf'')),
                                      (S ''chunk_index'', PInt 1),
                                      (S ''text'', PStr [98])]\<rparr>],
       TableInsert (S ''documents'')
         [(S ''id'', S ''doc0''), (S ''file_name'', S ''gap.pdf''),
          (S ''storage_path'', S ''doc0/gap.pdf'')]])"
proof -
  have env: "uuid4 demo_env [] = S ''doc0''"
    "\<And>tr p b. storage_upload demo_env tr p b = Inr (S ''stored'')"
    "\<And>tr m t. embeddings_create demo_env tr m t = Inr [length t]"
    "\<And>tr vs. index_upsert demo_env tr vs = Inr ()"
    "\<And>tr t row. table_insert demo_env tr t row = Inr ()"
    by (simp_all add: demo_env_def S_def)
  have ids: "S ''doc0'' @ S ''/'' @ S ''gap.pdf'' = S ''doc0/gap.pdf''"
    "S ''doc0'' @ S ''_'' @ str_int 1 = S ''doc0_1''"
    by (simp_all add: S_def str_int_def)
  show ?thesis
    by (simp add: upload_one_def gap_file_def env ids demo_extract demo_chunks enumerate_eq_zip
        blank_1000 nonblank_b get_embedding_def Let_def)
qed

text \<open>
  Claim C8. When a document is ingested, the records of its one \<^verbatim>\<open>index.upsert\<close> call are,
  in order, those of its non-blank chunks: the identifier is the document's \<^verbatim>\<open>file_id\<close>, an
  underscore and the chunk's index, and the metadata holds \<^verbatim>\<open>file_id\<close>, \<^verbatim>\<open>file_name\<close>,
  \<^verbatim>\<open>chunk_index\<close> and the chunk's \<^verbatim>\<open>text\<close>. An extracted text of 2500 characters, none
  of them whitespace, gives exactly the three records \<open>{doc}_0\<close>, \<open>{doc}_1\<close>, \<open>{doc}_2\<close>.
\<close>

theorem upserted_record_shape:
  assumes "upload_one env file tr = (Inr doc, tr')"
    and "extract_text_from_pdf_bytes env (file_content file) = Inr extracted"
    and "chunk_text extracted 1000 = Inr chunks"
  shows "\<exists>vs. upsert_calls tr' = upsert_calls tr @ (if vs = [] then [] else [vs]) \<and>
           map (\<lambda>v. (vec_id v, vec_metadata v)) vs =
             map (\<lambda>(i, chunk).
                    (doc_file_id doc @ S ''_'' @ str_int (int i),
                     [(S ''file_id'', PStr (doc_file_id doc)),
                      (S ''file_name'', PStr (filename file)),
                      (S ''chunk_index'', PInt (int i)),
                      (S ''text'', PStr chunk)]))
                 (kept_chunks chunks) \<and>
           (length extracted = 2500 \<and> (\<forall>c\<in>set extracted. \<not> isspace c) \<longrightarrow>
              upsert_calls tr' = upsert_calls tr @ [vs] \<and>
              map vec_id vs =
                [doc_file_id doc @ S ''_0'', doc_file_id doc @ S ''_1'', doc_file_id doc @ S ''_2''])"
proof -
  from assms(1) obtain res extracted' chunks' vs where
    ex: "extract_text_from_pdf_bytes env (file_content file) = Inr extracted'" and
    ch: "chunk_text extracted' 1000 = Inr chunks'" and
    doc: "doc = \<lparr>doc_file_id = uuid4 env tr, doc_file_name = filename file,
            doc_chunks = int (length chunks')\<rparr>" and
    recs: "map (\<lambda>v. (vec_id v, vec_metadata v)) vs =
       map (record_of (uuid4 env tr) (filename file)) (kept_chunks chunks')" and
    up: "upsert_calls tr' = upsert_calls tr @ (if vs = [] then [] else [vs])"
    by (rule upload_one_success)
  have same: "chunks' = chunks"
    using ex ch assms(2,3) by simp
  have fid: "doc_file_id doc = uuid4 env tr"
    by (simp add: doc)
  have shape: "map (\<lambda>v. (vec_id v, vec_metadata v)) vs =
             map (\<lambda>(i, chunk).
                    (doc_file_id doc @ S ''_'' @ str_int (int i),
                     [(S ''file_id'', PStr (doc_file_id doc)),
                      (S ''file_name'', PStr (filename file)),
                      (S ''chunk_index'', PInt (int i)),
                      (S ''text'', PStr chunk)]))
                 (kept_chunks chunks)"
    using recs by (simp add: same fid record_of_def case_prod_unfold)
  have long: "length extracted = 2500 \<and> (\<forall>c\<in>set extracted. \<not> isspace c) \<longrightarrow>
      upsert_calls tr' = upsert_calls tr @ [vs] \<and>
      map vec_id vs =
        [doc_file_id doc @ S ''_0'', doc_file_id doc @ S ''_1'', doc_file_id doc @ S ''_2'']"
  proof (intro impI, elim conjE)
    assume len: "length extracted = 2500" and nb: "\<forall>c\<in>set extracted. \<not> isspace c"
    have "[0..<3] = [0, Suc 0, Suc (Suc 0)]"
      by (simp add: numeral_3_eq_3)
    then have cs: "chunks = [take 1000 extracted, take 1000 (drop 1000 extracted),
                         take 1000 (drop 2000 extracted)]"
      using chunk_text_nat[of 1000 extracted] assms(3) len by simp
    have "strip chunk \<noteq> []" if "chunk \<in> set chunks" for chunk
    proof -
      have "chunk \<noteq> []" using that len by (auto simp: cs)
      moreover have "set chunk \<subseteq> set extracted"
        using that by (auto simp: cs dest: in_set_takeD in_set_dropD)
      ultimately show ?thesis
        using nb by (cases chunk) (auto simp: strip_empty_iff)
    qed
    then have "kept_chunks chunks = enumerate 0 chunks"
      by (simp add: kept_chunks_all)
    then have kept: "kept_chunks chunks =
        [(0, take 1000 extracted), (1, take 1000 (drop 1000 extracted)),
         (2, take 1000 (drop 2000 extracted))]"
      by (simp add: cs)
    have "map fst (map (\<lambda>v. (vec_id v, vec_metadata v)) vs) =
        [doc_file_id doc @ S ''_0'', doc_file_id doc @ S ''_1'', doc_file_id doc @ S ''_2'']"
      unfolding shape kept by (simp add: str_int_def S_def)
    then have ids: "map vec_id vs =
        [doc_file_id doc @ S ''_0'', doc_file_id doc @ S ''_1'', doc_file_id doc @ S ''_2'']"
      by (simp add: o_def)
    then have "vs \<noteq> []" by auto
    then show "upsert_calls tr' = upsert_calls tr @ [vs] \<and>
      map vec_id vs =
        [doc_file_id doc @ S ''_0'', doc_file_id doc @ S ''_1'', doc_file_id doc @ S ''_2'']"
      using up ids by simp
  qed
  show ?thesis
    by (rule exI[of _ vs]) (intro conjI up shape long)
qed

lemma long_chunks:
  "chunk_text (replicate 2500 97) 1000 =
     Inr [replicate 1000 97, replicate 1000 97, replicate 500 97]"
proof -
  have "[0..<3] = [0, Suc 0, Suc (Suc 0)]"
    by (simp add: numeral_3_eq_3)
  then show ?thesis
    using chunk_text_nat[of 1000 "replicate 2500 97"] by simp
qed

lemma long_extract:
  "extract_text_from_pdf_bytes demo_env (file_content long_file) = Inr (replicate 2500 97)"
  by (simp add: extract_text_from_pdf_bytes_def demo_env_def long_file_def)

lemma nonblank_a: "0 < n \<Longrightarrow> strip (replicate n 97) \<noteq> []"
  by (simp add: strip_empty_iff isspace_def)

lemma demo_long:
  "upload_one demo_env long_file [] =
     (Inr \<lparr>doc_file_id = S ''doc0'', doc_file_name = S ''long.pdf'', doc_chunks = 3\<rparr>,
      [Uuid4,
       StorageUpload (S ''doc0/long.pdf'') (replicate 2500 97),
       Print [S ''Supabase upload response:'', S ''stored''],
       EmbeddingsCreate (S ''text-embedding-3-small'') (replicate 1000 97),
       EmbeddingsCreate (S ''text-embedding-3-small'') (replicate 1000 97),
       EmbeddingsCreate (S ''text-embedding-3-small'') (replicate 500 97),
       IndexUpsert
         [\<lparr>vec_id = S ''doc0_0'', vec_values = [1000],
            vec_metadata = [(S ''file_id'', PStr (S ''doc0'')),
                            (S ''file_name'', PStr (S ''long.pdf'')),
                            (S ''chunk_index'', PInt 0),
                            (S ''text'', PStr (replicate 1000 97))]\<rparr>,
          \<lparr>vec_id = S ''doc0_1'', vec_values = [1000],
            vec_metadata = [(S ''file_id'', PStr (S ''doc0'')),
                            (S ''file_name'', PStr (S ''long.pdf'')),
                            (S ''chunk_index'', PInt 1),
                            (S ''text'', PStr (replicate 1000 97))]\<rparr>,
          \<lparr>vec_id = S ''doc0_2'', vec_values = [500],
            vec_metadata = [(S ''file_id'', PStr (S ''doc0'')),
                            (S ''file_name'', PStr (S ''long.pdf'')),
                            (S ''chunk_index'', PInt 2),
                            (S ''text'', PStr (replicate 500 97))]\<rparr>],
       TableInsert (S ''documents'')
         [(S ''id'', S ''doc0''), (S ''file_name'', S ''long.pdf''),
          (S ''storage_path'', S ''doc0/long.pdf'')]])"
proof -
  have env: "uuid4 demo_env [] = S ''doc0''"
    "\<And>tr p b. storage_upload demo_env tr p b = Inr (S ''stored'')"
    "\<And>tr m t. embeddings_create demo_env tr m t = Inr [length t]"
    "\<And>tr vs. index_upsert demo_env tr vs = Inr ()"
    "\<And>tr t row. table_insert demo_env tr t row = Inr ()"
    by (simp_all add: demo_env_def S_def)
  have ids: "S ''doc0'' @ S ''/'' @ S ''long.pdf'' = S ''doc0/long.pdf''"
    "S ''doc0'' @ S ''_'' @ str_int 0 = S ''doc0_0''"
    "S ''doc0'' @ S ''_'' @ str_int 1 = S ''doc0_1''"
    "S ''doc0'' @ S ''_'' @ str_int 2 = S ''doc0_2''"
    by (simp_all add: S_def str_int_def)
  have fc: "file_content long_file = replicate 2500 97" "filename long_file = S ''long.pdf''"
    by (simp_all add: long_file_def)
  show ?thesis
    using long_extract
    by (simp add: upload_one_def fc env ids long_chunks enumerate_eq_zip
        nonblank_a get_embedding_def Let_def upt_rec_numeral)
qed

theorem upserted_record_shape_witness:
  "length (replicate 2500 (97::nat)) = 2500 \<and> \<not> isspace 97 \<and>
   (\<exists>vs. upsert_calls (snd (upload_one demo_env long_file [])) = [vs] \<and>
         map vec_id vs = [S ''doc0_0'', S ''doc0_1'', S ''doc0_2''])"
proof -
  have nb: "\<forall>c\<in>set (replicate 2500 (97::nat)). \<not> isspace c"
    by (simp add: isspace_def)
  have run: "upload_one demo_env long_file [] =
      (fst (upload_one demo_env long_file []), snd (upload_one demo_env long_file []))"
    by simp
  have ok: "fst (upload_one demo_env long_file []) =
      Inr \<lparr>doc_file_id = S ''doc0'', doc_file_name = S ''long.pdf'', doc_chunks = 3\<rparr>"
    by (simp add: demo_long)
  show ?thesis
    using upserted_record_shape[OF run[unfolded ok] long_extract long_chunks] nb
    by (auto simp: isspace_def S_def)
qed

lemma filter_upt_prefix:
  "(\<forall>i j. i < j \<and> j < n \<and> \<not> P i \<longrightarrow> \<not> P j) \<Longrightarrow>
   filter P [0..<n] = [0..<length (filter P [0..<n])]"
proof (induction n)
  case 0
  show ?case by simp
next
  case (Suc n)
  show ?case
  proof (cases "P n")
    case True
    have "P i" if "i < n" for i
      using Suc.prems that True by blast
    then have "filter P [0..<n] = [0..<n]"
      by (simp add: filter_id_conv)
    then show ?thesis
      using True by simp
  next
    case False
    have "\<forall>i j. i < j \<and> j < n \<and> \<not> P i \<longrightarrow> \<not> P j"
      using Suc.prems by (meson less_Suc_eq)
    then have "filter P [0..<n] = [0..<length (filter P [0..<n])]"
      by (rule Suc.IH)
    then show ?thesis
      using False by simp
  qed
qed

lemma filter_upt_prefix_iff:
  "filter P [0..<n] = [0..<length (filter P [0..<n])] \<longleftrightarrow>
   (\<forall>i j. i < j \<and> j < n \<and> \<not> P i \<longrightarrow> \<not> P j)"
proof
  assume eq: "filter P [0..<n] = [0..<length (filter P [0..<n])]"
  let ?k = "length (filter P [0..<n])"
  have mem: "i < n \<and> P i \<longleftrightarrow> i < ?k" for i
  proof -
    have "i \<in> set (filter P [0..<n]) \<longleftrightarrow> i \<in> set [0..<?k]"
      using eq by simp
    then show ?thesis by simp
  qed
  show "\<forall>i j. i < j \<and> j < n \<and> \<not> P i \<longrightarrow> \<not> P j"
  proof (intro allI impI, elim conjE)
    fix i j
    assume ij: "i < j" and jn: "j < n" and ni: "\<not> P i"
    show "\<not> P j"
    proof
      assume "P j"
      then have "j < ?k" using jn mem by blast
      then have "i < ?k" using ij by simp
      then have "P i" using mem by blast
      with ni show False by simp
    qed
  qed
next
  assume "\<forall>i j. i < j \<and> j < n \<and> \<not> P i \<longrightarrow> \<not> P j"
  then show "filter P [0..<n] = [0..<length (filter P [0..<n])]"
    by (rule filter_upt_prefix)
qed

lemma chunk_index_record_of:
  "map_of (snd (record_of fid fname ic)) (S ''chunk_index'') = Some (PInt (int (fst ic)))"
  by (simp add: record_of_def S_def)

text \<open>
  Claim C2, as amended. The \<^verbatim>\<open>chunk_index\<close> values of the records upserted for a document,
  in the record identifiers and in the metadata, are the positions that the non-blank
  chunks have in the chunker's output, in text order and without repeats. A skipped blank
  chunk keeps its position, so the values are exactly \<open>0, ..., N - 1\<close> for \<open>N\<close> records if
  and only if no blank chunk comes before a non-blank one: a text of 1000 spaces followed by
  one letter gives the single record \<open>{doc}_1\<close>, while 1000 letters followed by one space
  give the single record \<open>{doc}_0\<close>.
\<close>

theorem chunk_index_positions:
  assumes "upload_one env file tr = (Inr doc, tr')"
    and "extract_text_from_pdf_bytes env (file_content file) = Inr extracted"
    and "chunk_text extracted 1000 = Inr chunks"
  shows "\<exists>vs. upsert_calls tr' = upsert_calls tr @ (if vs = [] then [] else [vs]) \<and>
           map vec_id vs =
             map (\<lambda>i. doc_file_id doc @ S ''_'' @ str_int (int i))
               (filter (\<lambda>i. strip (chunks ! i) \<noteq> []) [0..<length chunks]) \<and>
           map chunk_index vs =
             map (\<lambda>i. Some (PInt (int i)))
               (filter (\<lambda>i. strip (chunks ! i) \<noteq> []) [0..<length chunks]) \<and>
           distinct (map chunk_index vs) \<and>
           ((\<forall>chunk\<in>set chunks. strip chunk \<noteq> []) \<longrightarrow>
              map chunk_index vs = map (\<lambda>i. Some (PInt (int i))) [0..<length vs]) \<and>
           (map chunk_index vs = map (\<lambda>i. Some (PInt (int i))) [0..<length vs] \<longleftrightarrow>
              (\<forall>i j. i < j \<and> j < length chunks \<and> strip (chunks ! i) = [] \<longrightarrow>
                     strip (chunks ! j) = []))"
proof -
  let ?idx = "filter (\<lambda>i. strip (chunks ! i) \<noteq> []) [0..<length chunks]"
  from assms(1) obtain res extracted' chunks' vs where
    ex: "extract_text_from_pdf_bytes env (file_content file) = Inr extracted'" and
    ch: "chunk_text extracted' 1000 = Inr chunks'" and
    doc: "doc = \<lparr>doc_file_id = uuid4 env tr, doc_file_name = filename file,
            doc_chunks = int (length chunks')\<rparr>" and
    recs: "map (\<lambda>v. (vec_id v, vec_metadata v)) vs =
       map (record_of (uuid4 env tr) (filename file)) (kept_chunks chunks')" and
    up: "upsert_calls tr' = upsert_calls tr @ (if vs = [] then [] else [vs])"
    by (rule upload_one_success)
  have same: "chunks' = chunks"
    using ex ch assms(2,3) by simp
  have fid: "doc_file_id doc = uuid4 env tr"
    by (simp add: doc)
  have "map fst (map (\<lambda>v. (vec_id v, vec_metadata v)) vs) =
      map fst (map (record_of (uuid4 env tr) (filename file)) (kept_chunks chunks))"
    by (simp only: recs same)
  then have "map vec_id vs =
      map (\<lambda>i. doc_file_id doc @ S ''_'' @ str_int (int i)) (map fst (kept_chunks chunks))"
    by (simp add: o_def record_of_def fid)
  then have ids: "map vec_id vs = map (\<lambda>i. doc_file_id doc @ S ''_'' @ str_int (int i)) ?idx"
    by (simp only: kept_chunks_fst)
  have "map (\<lambda>p. map_of (snd p) (S ''chunk_index'')) (map (\<lambda>v. (vec_id v, vec_metadata v)) vs) =
      map (\<lambda>p. map_of (snd p) (S ''chunk_index''))
        (map (record_of (uuid4 env tr) (filename file)) (kept_chunks chunks))"
    by (simp only: recs same)
  then have "map chunk_index vs =
      map (\<lambda>i. Some (PInt (int i))) (map fst (kept_chunks chunks))"
    by (simp add: o_def chunk_index_record_of chunk_index_def[abs_def])
  then have cis: "map chunk_index vs = map (\<lambda>i. Some (PInt (int i))) ?idx"
    by (simp only: kept_chunks_fst)
  have "inj_on (\<lambda>i. Some (PInt (int i))) (set ?idx)"
    by (rule inj_onI) simp
  then have dist: "distinct (map chunk_index vs)"
    unfolding cis by (simp add: distinct_map)
  have len: "length vs = length ?idx"
    using arg_cong[OF cis, of length] by simp
  have full: "(\<forall>chunk\<in>set chunks. strip chunk \<noteq> []) \<longrightarrow>
      map chunk_index vs = map (\<lambda>i. Some (PInt (int i))) [0..<length vs]"
  proof
    assume nb: "\<forall>chunk\<in>set chunks. strip chunk \<noteq> []"
    then have all: "?idx = [0..<length chunks]"
      by (simp add: filter_id_conv)
    have "length vs = length chunks"
      using len by (simp add: all)
    then show "map chunk_index vs = map (\<lambda>i. Some (PInt (int i))) [0..<length vs]"
      using cis all by simp
  qed
  have inj: "inj (\<lambda>i::nat. Some (PInt (int i)))"
    by (rule injI) simp
  have "map chunk_index vs = map (\<lambda>i. Some (PInt (int i))) [0..<length vs] \<longleftrightarrow>
      map (\<lambda>i. Some (PInt (int i))) ?idx = map (\<lambda>i. Some (PInt (int i))) [0..<length ?idx]"
    by (simp only: cis len)
  also have "\<dots> \<longleftrightarrow> ?idx = [0..<length ?idx]"
    using inj by (rule inj_map_eq_map)
  also have "\<dots> \<longleftrightarrow>
      (\<forall>i j. i < j \<and> j < length chunks \<and> \<not> strip (chunks ! i) \<noteq> [] \<longrightarrow>
             \<not> strip (chunks ! j) \<noteq> [])"
    by (rule filter_upt_prefix_iff)
  finally have contiguous:
    "map chunk_index vs = map (\<lambda>i. Some (PInt (int i))) [0..<length vs] \<longleftrightarrow>
       (\<forall>i j. i < j \<and> j < length chunks \<and> strip (chunks ! i) = [] \<longrightarrow>
              strip (chunks ! j) = [])"
    by simp
  show ?thesis
    by (rule exI[of _ vs]) (intro conjI up ids cis dist full contiguous)
qed

lemma gap_extract:
  "extract_text_from_pdf_bytes demo_env (file_content gap_file) = Inr (replicate 1000 32 @ [98])"
  by (simp add: gap_file_def demo_extract)

theorem chunk_index_contiguity_counterexample:
  "fst (upload_one demo_env gap_file []) =
     Inr \<lparr>doc_file_id = S ''doc0'', doc_file_name = S ''gap.pdf'', doc_chunks = 2\<rparr> \<and>
   map vec_id (concat (upsert_calls (snd (upload_one demo_env gap_file [])))) = [S ''doc0_1''] \<and>
   map chunk_index (concat (upsert_calls (snd (upload_one demo_env gap_file [])))) =
     [Some (PInt 1)] \<and>
   map chunk_index (concat (upsert_calls (snd (upload_one demo_env gap_file [])))) \<noteq>
     map (\<lambda>i. Some (PInt (int i)))
       [0..<length (concat (upsert_calls (snd (upload_one demo_env gap_file []))))]"
  by (simp add: demo_gap chunk_index_def S_def)

lemma trailing_chunks:
  "chunk_text (replicate 1000 97 @ [32]) 1000 = Inr [replicate 1000 97, [32]]"
proof -
  have "[0..<2] = [0, Suc 0]"
    by (simp add: numeral_2_eq_2)
  then show ?thesis
    using chunk_text_nat[of 1000 "replicate 1000 97 @ [32]"] by simp
qed

lemma trailing_extract:
  "extract_text_from_pdf_bytes demo_env (file_content trailing_file) =
     Inr (replicate 1000 97 @ [32])"
  by (simp add: extract_text_from_pdf_bytes_def demo_env_def trailing_file_def)

lemma blank_space: "strip [32] = []"
  by (simp add: strip_def isspace_def)

lemma demo_trailing:
  "upload_one demo_env trailing_file [] =
     (Inr \<lparr>doc_file_id = S ''doc0'', doc_file_name = S ''trailing.pdf'', doc_chunks = 2\<rparr>,
      [Uuid4,
       StorageUpload (S ''doc0/trailing.pdf'') (replicate 1000 97 @ [32]),
       Print [S ''Supabase upload response:'', S ''stored''],
       EmbeddingsCreate (S ''text-embedding-3-small'') (replicate 1000 97),
       IndexUpsert [\<lparr>vec_id = S ''doc0_0'', vec_values = [1000],
                      vec_metadata = [(S ''file_id'', PStr (S ''doc0'')),
                                      (S ''file_name'', PStr (S ''trailing.pdf'')),
                                      (S ''chunk_index'', PInt 0),
                                      (S ''text'', PStr (replicate 1000 97))]\<rparr>],
       TableInsert (S ''documents'')
         [(S ''id'', S ''doc0''), (S ''file_name'', S ''trailing.pdf''),
          (S ''storage_path'', S ''doc0/trailing.pdf'')]])"
proof -
  have env: "uuid4 demo_env [] = S ''doc0''"
    "\<And>tr p b. storage_upload demo_env tr p b = Inr (S ''stored'')"
    "\<And>tr m t. embeddings_create demo_env tr m t = Inr [length t]"
    "\<And>tr vs. index_upsert demo_env tr vs = Inr ()"
    "\<And>tr t row. table_insert demo_env tr t row = Inr ()"
    by (simp_all add: demo_env_def S_def)
  have ids: "S ''doc0'' @ S ''/'' @ S ''trailing.pdf'' = S ''doc0/trailing.pdf''"
    "S ''doc0'' @ S ''_'' @ str_int 0 = S ''doc0_0''"
    by (simp_all add: S_def str_int_def)
  have fc: "file_content trailing_file = replicate 1000 97 @ [32]"
    "filename trailing_file = S ''trailing.pdf''"
    by (simp_all add: trailing_file_def)
  show ?thesis
    using trailing_extract
    by (simp add: upload_one_def fc env ids trailing_chunks enumerate_eq_zip
        nonblank_a blank_space get_embedding_def Let_def)
qed

theorem chunk_index_positions_witness:
  "(\<exists>vs. upsert_calls (snd (upload_one demo_env gap_file [])) = [vs] \<and>
         map vec_id vs = [S ''doc0_1''] \<and> map chunk_index vs = [Some (PInt 1)]) \<and>
   (\<exists>vs. upsert_calls (snd (upload_one demo_env trailing_file [])) = [vs] \<and>
         map vec_id vs = [S ''doc0_0''] \<and> map chunk_index vs = [Some (PInt 0)] \<and>
         map chunk_index vs = map (\<lambda>i. Some (PInt (int i))) [0..<length vs])"
proof -
  have run: "upload_one demo_env gap_file [] =
      (fst (upload_one demo_env gap_file []), snd (upload_one demo_env gap_file []))"
    by simp
  have ok: "fst (upload_one demo_env gap_file []) =
      Inr \<lparr>doc_file_id = S ''doc0'', doc_file_name = S ''gap.pdf'', doc_chunks = 2\<rparr>"
    by (simp add: demo_gap)
  have idx: "filter (\<lambda>i. strip ([replicate 1000 32, [98]] ! i) \<noteq> []) [0..<2] = [1]"
    by (simp add: numeral_2_eq_2 blank_1000 nonblank_b)
  have len: "length [replicate 1000 32, [98::nat]] = 2"
    by simp
  from chunk_index_positions[OF run[unfolded ok] gap_extract demo_chunks]
  have gap: "\<exists>vs. upsert_calls (snd (upload_one demo_env gap_file [])) = [vs] \<and>
         map vec_id vs = [S ''doc0_1''] \<and> map chunk_index vs = [Some (PInt 1)]"
  proof (elim exE conjE)
    fix vs
    assume a: "upsert_calls (snd (upload_one demo_env gap_file [])) =
          upsert_calls [] @ (if vs = [] then [] else [vs])"
    assume b: "map vec_id vs =
          map (\<lambda>i. doc_file_id \<lparr>doc_file_id = S ''doc0'', doc_file_name = S ''gap.pdf'',
                                  doc_chunks = 2\<rparr> @ S ''_'' @ str_int (int i))
            (filter (\<lambda>i. strip ([replicate 1000 32, [98]] ! i) \<noteq> [])
               [0..<length [replicate 1000 32, [98::nat]]])"
    assume c: "map chunk_index vs =
          map (\<lambda>i. Some (PInt (int i)))
            (filter (\<lambda>i. strip ([replicate 1000 32, [98]] ! i) \<noteq> [])
               [0..<length [replicate 1000 32, [98::nat]]])"
    have b': "map vec_id vs = [S ''doc0_1'']"
      using b unfolding len idx by (simp add: S_def str_int_def)
    have c': "map chunk_index vs = [Some (PInt 1)]"
      using c unfolding len idx by simp
    have "vs \<noteq> []"
      using b' by auto
    then have "upsert_calls (snd (upload_one demo_env gap_file [])) = [vs]"
      using a by simp
    then show ?thesis
      using b' c' by (intro exI[of _ vs] conjI)
  qed
  have run2: "upload_one demo_env trailing_file [] =
      (fst (upload_one demo_env trailing_file []), snd (upload_one demo_env trailing_file []))"
    by simp
  have ok2: "fst (upload_one demo_env trailing_file []) =
      Inr \<lparr>doc_file_id = S ''doc0'', doc_file_name = S ''trailing.pdf'', doc_chunks = 2\<rparr>"
    by (simp add: demo_trailing)
  have idx2: "filter (\<lambda>i. strip ([replicate 1000 97, [32]] ! i) \<noteq> []) [0..<2] = [0]"
    by (simp add: numeral_2_eq_2 blank_space nonblank_a)
  have len2: "length [replicate 1000 97, [32::nat]] = 2"
    by simp
  from chunk_index_positions[OF run2[unfolded ok2] trailing_extract trailing_chunks]
  have trailing: "\<exists>vs. upsert_calls (snd (upload_one demo_env trailing_file [])) = [vs] \<and>
         map vec_id vs = [S ''doc0_0''] \<and> map chunk_index vs = [Some (PInt 0)] \<and>
         map chunk_index vs = map (\<lambda>i. Some (PInt (int i))) [0..<length vs]"
  proof (elim exE conjE)
    fix vs
    assume a: "upsert_calls (snd (upload_one demo_env trailing_file [])) =
          upsert_calls [] @ (if vs = [] then [] else [vs])"
    assume b: "map vec_id vs =
          map (\<lambda>i. doc_file_id \<lparr>doc_file_id = S ''doc0'', doc_file_name = S ''trailing.pdf'',
                                  doc_chunks = 2\<rparr> @ S ''_'' @ str_int (int i))
            (filter (\<lambda>i. strip ([replicate 1000 97, [32]] ! i) \<noteq> [])
               [0..<length [replicate 1000 97, [32::nat]]])"
    assume c: "map chunk_index vs =
          map (\<lambda>i. Some (PInt (int i)))
            (filter (\<lambda>i. strip ([replicate 1000 97, [32]] ! i) \<noteq> [])
               [0..<length [replicate 1000 97, [32::nat]]])"
    have b': "map vec_id vs = [S ''doc0_0'']"
      using b unfolding len2 idx2 by (simp add: S_def str_int_def)
    have c': "map chunk_index vs = [Some (PInt 0)]"
      using c unfolding len2 idx2 by simp
    have one: "length vs = 1"
      using arg_cong[OF c', of length] by simp
    have d: "map chunk_index vs = map (\<lambda>i. Some (PInt (int i))) [0..<length vs]"
      by (simp add: c' one)
    have "vs \<noteq> []"
      using b' by auto
    then have "upsert_calls (snd (upload_one demo_env trailing_file [])) = [vs]"
      using a by simp
    then show ?thesis
      using b' c' d by (intro exI[of _ vs] conjI)
  qed
  show ?thesis
    using gap trailing by (rule conjI)
qed

lemma build_vectors_blank:
  "\<forall>ic\<in>set ics. strip (snd ic) = [] \<Longrightarrow>
   build_vectors env fid fname ics acc t = (Inr acc, t)"
  by (induction ics) auto

text \<open>
  Claim C9. When every chunk of a document is blank (in particular when the text is empty),
  the inner loop builds no record, no embedding is requested, \<^verbatim>\<open>index.upsert\<close> is not
  called, and the iteration still returns the document's summary entry, which counts the
  chunks.
\<close>

theorem blank_document_skips_upsert:
  assumes "storage_upload env (tr @ [Uuid4]) (uuid4 env tr @ S ''/'' @ filename file)
             (file_content file) = Inr res"
    and "extract_text_from_pdf_bytes env (file_content file) = Inr extracted"
    and "chunk_text extracted 1000 = Inr chunks"
    and "\<forall>chunk\<in>set chunks. strip chunk = []"
  shows "build_vectors env (uuid4 env tr) (filename file) (enumerate 0 chunks) [] t = (Inr [], t) \<and>
         fst (upload_one env file tr) =
           Inr \<lparr>doc_file_id = uuid4 env tr, doc_file_name = filename file,
                doc_chunks = int (length chunks)\<rparr> \<and>
         upsert_calls (snd (upload_one env file tr)) = upsert_calls tr \<and>
         embedded_texts (snd (upload_one env file tr)) = embedded_texts tr"
proof -
  have blank: "\<forall>ic\<in>set (enumerate 0 chunks). strip (snd ic) = []"
    using assms(4) by (auto simp: in_set_enumerate_eq)
  have bv: "build_vectors env (uuid4 env tr) (filename file) (enumerate 0 chunks) [] t = (Inr [], t)"
    for t
    using blank by (rule build_vectors_blank)
  have res: "fst (upload_one env file tr) =
           Inr \<lparr>doc_file_id = uuid4 env tr, doc_file_name = filename file,
                doc_chunks = int (length chunks)\<rparr>"
    using assms(1-3) by (simp add: upload_one_def Let_def bv)
  have up: "upsert_calls (snd (upload_one env file tr)) = upsert_calls tr"
    using assms(1-3)
    by (simp add: upload_one_def Let_def bv upsert_calls_append split: sum.splits)
  have em: "embedded_texts (snd (upload_one env file tr)) = embedded_texts tr"
    using assms(1-3)
    by (simp add: upload_one_def Let_def bv embedded_texts_append split: sum.splits)
  show ?thesis
    using bv res up em by simp
qed

lemma blank_chunks: "chunk_text [32, 32, 32] 1000 = Inr [[32, 32, 32]]"
  using chunk_text_nat[of 1000 "[32, 32, 32]"] by simp

lemma blank_extract:
  "extract_text_from_pdf_bytes demo_env (file_content blank_file) = Inr [32, 32, 32]"
  by (simp add: extract_text_from_pdf_bytes_def demo_env_def blank_file_def)

theorem blank_document_skips_upsert_witness:
  "fst (upload_one demo_env blank_file []) =
     Inr \<lparr>doc_file_id = S ''doc0'', doc_file_name = S ''blank.pdf'', doc_chunks = 1\<rparr> \<and>
   upsert_calls (snd (upload_one demo_env blank_file [])) = [] \<and>
   embedded_texts (snd (upload_one demo_env blank_file [])) = []"
proof -
  have st: "storage_upload demo_env ([] @ [Uuid4]) (uuid4 demo_env [] @ S ''/'' @ filename blank_file)
      (file_content blank_file) = Inr (S ''stored'')"
    by (simp add: demo_env_def)
  have bl: "\<forall>chunk\<in>set [[32, 32, 32]]. strip chunk = []"
    by (simp add: strip_empty_iff isspace_def)
  have fid: "uuid4 demo_env [] = S ''doc0''" "filename blank_file = S ''blank.pdf''"
    by (simp_all add: demo_env_def blank_file_def S_def)
  show ?thesis
    using blank_document_skips_upsert[OF st blank_extract blank_chunks bl]
    by (simp add: fid)
qed

lemma upload_loop_append:
  "upload_loop env (pre @ rest) acc tr =
     (case upload_loop env pre acc tr of
        (Inl e, t) \<Rightarrow> (Inl e, t)
      | (Inr docs, t) \<Rightarrow> upload_loop env rest docs t)"
  by (induction pre arbitrary: acc tr) (auto split: prod.splits sum.splits)

lemma upload_loop_counts:
  "upload_loop env files acc tr = (Inr docs, tr') \<Longrightarrow>
     map doc_chunks docs =
       map doc_chunks acc @ map (\<lambda>f. int (length (chunks_of env f))) files \<and>
     embedded_texts tr' =
       embedded_texts tr @
       concat (map (\<lambda>f. filter (\<lambda>chunk. strip chunk \<noteq> []) (chunks_of env f)) files) \<and>
     map length (upsert_calls tr') =
       map length (upsert_calls tr) @
       filter (\<lambda>n. 0 < n)
         (map (\<lambda>f. length (filter (\<lambda>chunk. strip chunk \<noteq> []) (chunks_of env f))) files)"
proof (induction files arbitrary: acc tr)
  case Nil
  then show ?case by simp
next
  case (Cons f fs)
  obtain r t1 where one: "upload_one env f tr = (r, t1)"
    by (cases "upload_one env f tr")
  obtain doc where r: "r = Inr doc"
    using Cons.prems one by (cases r) simp_all
  have rest: "upload_loop env fs (acc @ [doc]) t1 = (Inr docs, tr')"
    using Cons.prems one r by simp
  from one[unfolded r] obtain res extracted chunks vs where
    ex: "extract_text_from_pdf_bytes env (file_content f) = Inr extracted" and
    ch: "chunk_text extracted 1000 = Inr chunks" and
    doc: "doc = \<lparr>doc_file_id = uuid4 env tr, doc_file_name = filename f,
            doc_chunks = int (length chunks)\<rparr>" and
    recs: "map (\<lambda>v. (vec_id v, vec_metadata v)) vs =
       map (record_of (uuid4 env tr) (filename f)) (kept_chunks chunks)" and
    up: "upsert_calls t1 = upsert_calls tr @ (if vs = [] then [] else [vs])" and
    em: "embedded_texts t1 = embedded_texts tr @ map snd (kept_chunks chunks)"
    by (rule upload_one_success)
  have co: "chunks_of env f = chunks"
    by (simp add: chunks_of_def ex ch)
  have "length (map (\<lambda>v. (vec_id v, vec_metadata v)) vs) =
      length (map snd (kept_chunks chunks))"
    by (simp only: recs length_map)
  then have len: "length vs = length (filter (\<lambda>chunk. strip chunk \<noteq> []) chunks)"
    by (simp only: kept_chunks_snd length_map)
  have up1: "map length (upsert_calls t1) =
      map length (upsert_calls tr) @ filter (\<lambda>n. 0 < n) [length vs]"
    by (simp add: up)
  have em1: "embedded_texts t1 =
      embedded_texts tr @ filter (\<lambda>chunk. strip chunk \<noteq> []) chunks"
    by (simp only: em kept_chunks_snd)
  have dc: "doc_chunks doc = int (length chunks)"
    by (simp add: doc)
  show ?case
    using Cons.IH[OF rest] by (simp add: co up1 em1 dc len)
qed

text \<open>
  Claim C7. When an upload request returns, the \<^verbatim>\<open>chunks\<close> count of each document's entry
  is the number of chunks that \<open>chunk_text\<close> produced for its text, blank chunks included,
  while the texts sent for embedding and the sizes of the \<^verbatim>\<open>index.upsert\<close> calls count
  only the chunks that are not blank after \<^verbatim>\<open>strip()\<close>.
\<close>

theorem reported_chunks_count_all:
  assumes "upload_pdfs env files tr = (Inr r, tr')"
  shows "map doc_chunks (result_uploaded r) = map (\<lambda>f. int (length (chunks_of env f))) files \<and>
         embedded_texts tr' =
           embedded_texts tr @
           concat (map (\<lambda>f. filter (\<lambda>chunk. strip chunk \<noteq> []) (chunks_of env f)) files) \<and>
         map length (upsert_calls tr') =
           map length (upsert_calls tr) @
           filter (\<lambda>n. 0 < n)
             (map (\<lambda>f. length (filter (\<lambda>chunk. strip chunk \<noteq> []) (chunks_of env f))) files)"
proof -
  obtain x t where loop: "upload_loop env files [] tr = (x, t)"
    by (cases "upload_loop env files [] tr")
  obtain docs where x: "x = Inr docs"
    using assms loop by (cases x) (simp_all add: upload_pdfs_def)
  have r: "result_uploaded r = docs" and t: "tr' = t"
    using assms loop x by (auto simp: upload_pdfs_def)
  show ?thesis
    using upload_loop_counts[OF loop[unfolded x]] by (simp add: r t)
qed

lemma gap_chunks_of: "chunks_of demo_env gap_file = [replicate 1000 32, [98]]"
  by (simp add: chunks_of_def gap_extract demo_chunks)

theorem reported_chunks_count_all_witness:
  "fst (upload_pdfs demo_env [gap_file] []) =
     Inr \<lparr>result_status = S ''ok'',
          result_uploaded =
            [\<lparr>doc_file_id = S ''doc0'', doc_file_name = S ''gap.pdf'', doc_chunks = 2\<rparr>]\<rparr> \<and>
   map (\<lambda>f. int (length (chunks_of demo_env f))) [gap_file] = [2] \<and>
   embedded_texts (snd (upload_pdfs demo_env [gap_file] [])) = [[98]] \<and>
   map length (upsert_calls (snd (upload_pdfs demo_env [gap_file] []))) = [1]"
proof -
  have run: "upload_pdfs demo_env [gap_file] [] =
      (fst (upload_pdfs demo_env [gap_file] []), snd (upload_pdfs demo_env [gap_file] []))"
    by simp
  have ok: "fst (upload_pdfs demo_env [gap_file] []) =
     Inr \<lparr>result_status = S ''ok'',
          result_uploaded =
            [\<lparr>doc_file_id = S ''doc0'', doc_file_name = S ''gap.pdf'', doc_chunks = 2\<rparr>]\<rparr>"
    by (simp add: upload_pdfs_def demo_gap)
  show ?thesis
    using reported_chunks_count_all[OF run[unfolded ok]] ok
    by (simp add: gap_chunks_of blank_1000 nonblank_b)
qed

section \<open>Failures inside an upload request\<close>

lemma upload_loop_failure:
  assumes "upload_loop env pre [] tr = (Inr docs, tr1)"
    and "upload_one env file tr1 = (Inl e, tr2)"
  shows "upload_pdfs env (pre @ file # post) tr = (Inl e, tr2)"
  using assms by (simp add: upload_pdfs_def upload_loop_append)

lemma small_chunks: "chunk_text [104, 105] 1000 = Inr [[104, 105]]"
  using chunk_text_nat[of 1000 "[104, 105]"] by simp

lemma small_extract:
  "extract_text_from_pdf_bytes demo_env [104, 105] = Inr [104, 105]"
  by (simp add: extract_text_from_pdf_bytes_def demo_env_def)

lemma bad_extract:
  "extract_text_from_pdf_bytes demo_env [] =
     Inl (LibraryError ''PdfReadError'' (S ''EOF marker not found''))"
  by (simp add: extract_text_from_pdf_bytes_def demo_env_def)

lemma nonblank_hi: "strip [104, 105] = [104, 105]"
  by (simp add: strip_def isspace_def)

lemma demo_small:
  "upload_one demo_env small_file [] =
     (Inr \<lparr>doc_file_id = S ''doc0'', doc_file_name = S ''small.pdf'', doc_chunks = 1\<rparr>,
      [Uuid4,
       StorageUpload (S ''doc0/small.pdf'') [104, 105],
       Print [S ''Supabase upload response:'', S ''stored''],
       EmbeddingsCreate (S ''text-embedding-3-small'') [104, 105],
       IndexUpsert [\<lparr>vec_id = S ''doc0_0'', vec_values = [2],
                      vec_metadata = [(S ''file_id'', PStr (S ''doc0'')),
                                      (S ''file_name'', PStr (S ''small.pdf'')),
                                      (S ''chunk_index'', PInt 0),
                                      (S ''text'', PStr [104, 105])]\<rparr>],
       TableInsert (S ''documents'')
         [(S ''id'', S ''doc0''), (S ''file_name'', S ''small.pdf''),
          (S ''storage_path'', S ''doc0/small.pdf'')]])"
proof -
  have env: "uuid4 demo_env [] = S ''doc0''"
    "\<And>tr p b. storage_upload demo_env tr p b = Inr (S ''stored'')"
    "\<And>tr m t. embeddings_create demo_env tr m t = Inr [length t]"
    "\<And>tr vs. index_upsert demo_env tr vs = Inr ()"
    "\<And>tr t row. table_insert demo_env tr t row = Inr ()"
    by (simp_all add: demo_env_def S_def)
  have ids: "S ''doc0'' @ S ''/'' @ S ''small.pdf'' = S ''doc0/small.pdf''"
    "S ''doc0'' @ S ''_'' @ str_int 0 = S ''doc0_0''"
    by (simp_all add: S_def str_int_def)
  show ?thesis
    by (simp add: upload_one_def small_file_def env ids small_extract small_chunks
        enumerate_eq_zip nonblank_hi get_embedding_def Let_def)
qed

text \<open>
  Claim C1, as amended. Nothing in \<^verbatim>\<open>upload_pdfs\<close> catches an extraction error: when the
  bytes of one document cannot be parsed, the exception ends the whole request and no
  summary list is returned. The documents before it in the batch have been embedded and
  upserted by then; the documents after it are not processed.
\<close>

theorem extraction_failure_aborts_request:
  assumes "upload_loop env pre [] tr = (Inr docs, tr1)"
    and "storage_upload env (tr1 @ [Uuid4]) (uuid4 env tr1 @ S ''/'' @ filename file)
           (file_content file) = Inr res"
    and "extract_text_from_pdf_bytes env (file_content file) = Inl e"
  shows "upload_pdfs env (pre @ file # post) tr =
           (Inl e,
            tr1 @ [Uuid4,
                   StorageUpload (uuid4 env tr1 @ S ''/'' @ filename file) (file_content file),
                   Print [S ''Supabase upload response:'', res]]) \<and>
         embedded_texts (snd (upload_pdfs env (pre @ file # post) tr)) =
           embedded_texts tr @
           concat (map (\<lambda>f. filter (\<lambda>chunk. strip chunk \<noteq> []) (chunks_of env f)) pre) \<and>
         map length (upsert_calls (snd (upload_pdfs env (pre @ file # post) tr))) =
           map length (upsert_calls tr) @
           filter (\<lambda>n. 0 < n)
             (map (\<lambda>f. length (filter (\<lambda>chunk. strip chunk \<noteq> []) (chunks_of env f))) pre)"
proof -
  let ?tr2 = "tr1 @ [Uuid4,
                   StorageUpload (uuid4 env tr1 @ S ''/'' @ filename file) (file_content file),
                   Print [S ''Supabase upload response:'', res]]"
  have one: "upload_one env file tr1 = (Inl e, ?tr2)"
    using assms(2,3) by (simp add: upload_one_def Let_def)
  have whole: "upload_pdfs env (pre @ file # post) tr = (Inl e, ?tr2)"
    using assms(1) one by (rule upload_loop_failure)
  have em: "embedded_texts ?tr2 = embedded_texts tr1"
    and up: "upsert_calls ?tr2 = upsert_calls tr1"
    by (simp_all add: embedded_texts_append upsert_calls_append)
  show ?thesis
    using upload_loop_counts[OF assms(1)] by (simp add: whole em up)
qed

theorem extraction_isolation_counterexample:
  "upload_pdfs demo_env [bad_file, small_file] [] =
     (Inl (LibraryError ''PdfReadError'' (S ''EOF marker not found'')),
      [Uuid4, StorageUpload (S ''doc0/bad.pdf'') [],
       Print [S ''Supabase upload response:'', S ''stored'']]) \<and>
   fst (upload_pdfs demo_env [small_file] []) =
     Inr \<lparr>result_status = S ''ok'',
          result_uploaded =
            [\<lparr>doc_file_id = S ''doc0'', doc_file_name = S ''small.pdf'', doc_chunks = 1\<rparr>]\<rparr>"
proof -
  have env: "uuid4 demo_env [] = S ''doc0''"
    "\<And>tr p b. storage_upload demo_env tr p b = Inr (S ''stored'')"
    by (simp_all add: demo_env_def S_def)
  have path: "S ''doc0'' @ S ''/'' @ S ''bad.pdf'' = S ''doc0/bad.pdf''"
    by (simp add: S_def)
  have "upload_one demo_env bad_file [] =
     (Inl (LibraryError ''PdfReadError'' (S ''EOF marker not found'')),
      [Uuid4, StorageUpload (S ''doc0/bad.pdf'') [],
       Print [S ''Supabase upload response:'', S ''stored'']])"
    by (simp add: upload_one_def Let_def bad_file_def bad_extract env path)
  then show ?thesis
    by (simp add: upload_pdfs_def demo_small)
qed

theorem extraction_failure_aborts_request_witness:
  "fst (upload_pdfs demo_env ([small_file] @ bad_file # [small_file]) []) =
     Inl (LibraryError ''PdfReadError'' (S ''EOF marker not found'')) \<and>
   snd (upload_pdfs demo_env ([small_file] @ bad_file # [small_file]) []) =
     snd (upload_one demo_env small_file []) @
     [Uuid4, StorageUpload (S ''doc6/bad.pdf'') [],
      Print [S ''Supabase upload response:'', S ''stored'']] \<and>
   embedded_texts (snd (upload_pdfs demo_env ([small_file] @ bad_file # [small_file]) [])) =
     [[104, 105]]"
proof -
  let ?tr1 = "snd (upload_one demo_env small_file [])"
  have pre: "upload_loop demo_env [small_file] [] [] =
      (Inr [\<lparr>doc_file_id = S ''doc0'', doc_file_name = S ''small.pdf'', doc_chunks = 1\<rparr>], ?tr1)"
    by (simp add: demo_small)
  have st: "storage_upload demo_env (?tr1 @ [Uuid4]) (uuid4 demo_env ?tr1 @ S ''/'' @ filename bad_file)
      (file_content bad_file) = Inr (S ''stored'')"
    by (simp add: demo_env_def)
  have ex: "extract_text_from_pdf_bytes demo_env (file_content bad_file) =
      Inl (LibraryError ''PdfReadError'' (S ''EOF marker not found''))"
    by (simp add: bad_file_def bad_extract)
  have len: "length ?tr1 = 6"
    by (simp add: demo_small)
  have "uuid4 demo_env t = S ''doc'' @ str_nat (length t)" for t :: "nat list trace"
    by (simp add: demo_env_def)
  then have fid: "uuid4 demo_env ?tr1 @ S ''/'' @ filename bad_file = S ''doc6/bad.pdf''"
    by (simp add: len bad_file_def S_def)
  have co: "chunks_of demo_env small_file = [[104, 105]]"
    by (simp add: chunks_of_def small_file_def small_extract small_chunks)
  have fc: "file_content bad_file = []"
    by (simp add: bad_file_def)
  note th = extraction_failure_aborts_request[OF pre st ex, of "[small_file]", unfolded fid fc]
  have a: "upload_pdfs demo_env ([small_file] @ bad_file # [small_file]) [] =
      (Inl (LibraryError ''PdfReadError'' (S ''EOF marker not found'')),
       ?tr1 @ [Uuid4, StorageUpload (S ''doc6/bad.pdf'') [],
               Print [S ''Supabase upload response:'', S ''stored'']])"
    using th[THEN conjunct1] .
  have b: "embedded_texts (snd (upload_pdfs demo_env ([small_file] @ bad_file # [small_file]) [])) =
      [[104, 105]]"
    using th[THEN conjunct2, THEN conjunct1] by (simp add: co nonblank_hi)
  show ?thesis
    by (intro conjI b) (simp_all only: a fst_conv snd_conv)
qed

text \<open>
  Claim C3, as amended. The storage write is not inside a \<^verbatim>\<open>try\<close>: when it raises, the
  exception ends the whole request, before the document's text is extracted; nothing of
  this document or of the documents after it is embedded or upserted. Only the insert into
  the \<^verbatim>\<open>documents\<close> table is guarded.
\<close>

theorem storage_failure_aborts_request:
  assumes "upload_loop env pre [] tr = (Inr docs, tr1)"
    and "storage_upload env (tr1 @ [Uuid4]) (uuid4 env tr1 @ S ''/'' @ filename file)
           (file_content file) = Inl e"
  shows "upload_pdfs env (pre @ file # post) tr =
           (Inl e,
            tr1 @ [Uuid4,
                   StorageUpload (uuid4 env tr1 @ S ''/'' @ filename file) (file_content file)]) \<and>
         embedded_texts (snd (upload_pdfs env (pre @ file # post) tr)) =
           embedded_texts tr @
           concat (map (\<lambda>f. filter (\<lambda>chunk. strip chunk \<noteq> []) (chunks_of env f)) pre) \<and>
         map length (upsert_calls (snd (upload_pdfs env (pre @ file # post) tr))) =
           map length (upsert_calls tr) @
           filter (\<lambda>n. 0 < n)
             (map (\<lambda>f. length (filter (\<lambda>chunk. strip chunk \<noteq> []) (chunks_of env f))) pre)"
proof -
  let ?tr2 = "tr1 @ [Uuid4,
                   StorageUpload (uuid4 env tr1 @ S ''/'' @ filename file) (file_content file)]"
  have one: "upload_one env file tr1 = (Inl e, ?tr2)"
    using assms(2) by (simp add: upload_one_def Let_def)
  have whole: "upload_pdfs env (pre @ file # post) tr = (Inl e, ?tr2)"
    using assms(1) one by (rule upload_loop_failure)
  have em: "embedded_texts ?tr2 = embedded_texts tr1"
    and up: "upsert_calls ?tr2 = upsert_calls tr1"
    by (simp_all add: embedded_texts_append upsert_calls_append)
  show ?thesis
    using upload_loop_counts[OF assms(1)] by (simp add: whole em up)
qed

lemma storage_down_fields:
  "uuid4 storage_down_env [] = S ''doc0''"
  "storage_upload storage_down_env t p b =
     Inl (LibraryError ''StorageException'' (S ''upload failed''))"
  by (simp_all add: storage_down_env_def demo_env_def S_def)

theorem storage_failure_counterexample:
  "upload_pdfs storage_down_env [small_file] [] =
     (Inl (LibraryError ''StorageException'' (S ''upload failed'')),
      [Uuid4, StorageUpload (S ''doc0/small.pdf'') [104, 105]]) \<and>
   fst (upload_pdfs demo_env [small_file] []) =
     Inr \<lparr>result_status = S ''ok'',
          result_uploaded =
            [\<lparr>doc_file_id = S ''doc0'', doc_file_name = S ''small.pdf'', doc_chunks = 1\<rparr>]\<rparr>"
proof -
  have path: "S ''doc0'' @ S ''/'' @ S ''small.pdf'' = S ''doc0/small.pdf''"
    by (simp add: S_def)
  have "upload_one storage_down_env small_file [] =
     (Inl (LibraryError ''StorageException'' (S ''upload failed'')),
      [Uuid4, StorageUpload (S ''doc0/small.pdf'') [104, 105]])"
    by (simp add: upload_one_def Let_def small_file_def storage_down_fields path)
  then show ?thesis
    by (simp add: upload_pdfs_def demo_small)
qed

theorem storage_failure_aborts_request_witness:
  "upload_pdfs storage_down_env ([] @ small_file # [small_file]) [] =
     (Inl (LibraryError ''StorageException'' (S ''upload failed'')),
      [Uuid4, StorageUpload (S ''doc0/small.pdf'') [104, 105]]) \<and>
   embedded_texts (snd (upload_pdfs storage_down_env ([] @ small_file # [small_file]) [])) = []"
proof -
  have pre: "upload_loop storage_down_env [] [] [] = (Inr [], [])"
    by simp
  have st: "storage_upload storage_down_env ([] @ [Uuid4])
      (uuid4 storage_down_env [] @ S ''/'' @ filename small_file) (file_content small_file) =
      Inl (LibraryError ''StorageException'' (S ''upload failed''))"
    by (rule storage_down_fields)
  have path: "uuid4 storage_down_env [] @ S ''/'' @ filename small_file = S ''doc0/small.pdf''"
    by (simp add: storage_down_fields small_file_def S_def)
  have fc: "file_content small_file = [104, 105]"
    by (simp add: small_file_def)
  note th = storage_failure_aborts_request[OF pre st, of "[small_file]", unfolded path fc]
  have a: "upload_pdfs storage_down_env ([] @ small_file # [small_file]) [] =
     (Inl (LibraryError ''StorageException'' (S ''upload failed'')),
      [Uuid4, StorageUpload (S ''doc0/small.pdf'') [104, 105]])"
    using th[THEN conjunct1] by simp
  have b: "embedded_texts (snd (upload_pdfs storage_down_env ([] @ small_file # [small_file]) [])) = []"
    using th[THEN conjunct2, THEN conjunct1] by simp
  show ?thesis
    by (intro conjI a b)
qed

section \<open>Answering a question\<close>

lemma str_items_strs: "str_items i (map PStr texts) = Inr texts"
  by (induction texts arbitrary: i) simp_all

lemma py_join_strs: "py_join sep (map PStr texts) = Inr (join_strs sep texts)"
  by (simp add: py_join_def str_items_strs)




lemma ask_fields:
  "embeddings_create ask_env t m x = Inr [length x]"
  "index_query ask_env t v k b = Inr [m0, m1]"
  "chat_completions_create ask_env t m msgs = Inr (S ''answer'')"
  by (simp_all add: ask_env_def demo_env_def)

lemma bare_fields:
  "embeddings_create bare_env t m x = Inr [length x]"
  "index_query bare_env t v k b = Inr [m0, bare_match]"
  by (simp_all add: bare_env_def demo_env_def)


text \<open>
  What the context assembly does when no match has \<^verbatim>\<open>None\<close> for its metadata: for matches
  whose \<^verbatim>\<open>text\<close> fields are strings (a match without the metadata key, or with a metadata
  dictionary without a \<^verbatim>\<open>text\<close> key, counting as the empty string) and a joined string that
  is not blank, \<open>generate_answer\<close> is called with the context that joins those texts with
  \<^verbatim>\<open>"\n\n---\n\n"\<close> in the order of the matches; \<^verbatim>\<open>"A"\<close> and \<^verbatim>\<open>"B"\<close> give
  \<^verbatim>\<open>"A\n\n---\n\nB"\<close>.
\<close>

lemma context_joins_match_texts:
  assumes "embeddings_create env tr (S ''text-embedding-3-small'') (question payload) = Inr q_emb"
    and "index_query env (tr @ [EmbeddingsCreate (S ''text-embedding-3-small'') (question payload)])
           q_emb 5 True = Inr matches"
    and "matches \<noteq> []"
    and "collect_texts matches [] = Inr (map PStr texts)"
    and "strip (join_strs separator texts) \<noteq> []"
  shows "ask_question env payload tr =
           (case generate_answer env (question payload) (join_strs separator texts)
                   (tr @ [EmbeddingsCreate (S ''text-embedding-3-small'') (question payload),
                          IndexQuery q_emb 5 True]) of
              (Inl e, t) \<Rightarrow> (Inl e, t)
            | (Inr a, t) \<Rightarrow> (Inr \<lparr>answer = a\<rparr>, t)) \<and>
         chat_calls (snd (ask_question env payload tr)) =
           chat_calls tr @ [chat_messages (question payload) (join_strs separator texts)] \<and>
         (match_metadata m = None \<longrightarrow> match_text m = Inr (PStr [])) \<and>
         (match_metadata m = Some (DictObj md) \<and> map_of md (S ''text'') = None \<longrightarrow>
            match_text m = Inr (PStr [])) \<and>
         join_strs separator [S ''A'', S ''B''] = S ''A'' @ [10, 10, 45, 45, 45, 10, 10] @ S ''B''"
proof -
  let ?tr2 = "tr @ [EmbeddingsCreate (S ''text-embedding-3-small'') (question payload),
                    IndexQuery q_emb 5 True]"
  have joined: "py_join separator (map PStr texts) = Inr (join_strs separator texts)"
    by (rule py_join_strs)
  have run: "ask_question env payload tr =
           (case generate_answer env (question payload) (join_strs separator texts) ?tr2 of
              (Inl e, t) \<Rightarrow> (Inl e, t)
            | (Inr a, t) \<Rightarrow> (Inr \<lparr>answer = a\<rparr>, t))"
    using assms(1,2,4,5) joined
    by (simp add: ask_question_def get_embedding_def Let_def)
  have calls: "chat_calls (snd (ask_question env payload tr)) =
           chat_calls tr @ [chat_messages (question payload) (join_strs separator texts)]"
    unfolding run
    by (simp add: generate_answer_def chat_calls_append split: sum.splits)
  have none: "match_metadata m = None \<longrightarrow> match_text m = Inr (PStr [])"
    by (simp add: match_text_def dict_get_def)
  have nokey: "match_metadata m = Some (DictObj md) \<and> map_of md (S ''text'') = None \<longrightarrow>
      match_text m = Inr (PStr [])"
    by (simp add: match_text_def dict_get_def)
  have ab: "join_strs separator [S ''A'', S ''B''] =
      S ''A'' @ [10, 10, 45, 45, 45, 10, 10] @ S ''B''"
    by (simp add: separator_def S_def)
  show ?thesis
    by (intro conjI run calls none nokey ab)
qed

lemma context_joins_match_texts_example:
  "ask_question ask_env \<lparr>question = S ''Q''\<rparr> [] =
     (Inr \<lparr>answer = S ''answer''\<rparr>,
      [EmbeddingsCreate (S ''text-embedding-3-small'') (S ''Q''),
       IndexQuery [1] 5 True,
       ChatCompletionsCreate (S ''gpt-4o-mini'')
         (chat_messages (S ''Q'') (S ''A'' @ [10, 10, 45, 45, 45, 10, 10] @ S ''B''))]) \<and>
   chat_calls (snd (ask_question ask_env \<lparr>question = S ''Q''\<rparr> [])) =
     [chat_messages (S ''Q'') (S ''A'' @ [10, 10, 45, 45, 45, 10, 10] @ S ''B'')]"
proof -
  have q: "question \<lparr>question = S ''Q''\<rparr> = S ''Q''" "length (S ''Q'') = 1"
    by (simp_all add: S_def)
  have e: "embeddings_create ask_env [] (S ''text-embedding-3-small'')
      (question \<lparr>question = S ''Q''\<rparr>) = Inr [1]"
    by (simp add: ask_fields q)
  have qr: "index_query ask_env
      ([] @ [EmbeddingsCreate (S ''text-embedding-3-small'') (question \<lparr>question = S ''Q''\<rparr>)])
      [1] 5 True = Inr [m0, m1]"
    by (rule ask_fields)
  have ne: "[m0, m1] \<noteq> []"
    by simp
  have tx: "collect_texts [m0, m1] [] = Inr (map PStr [S ''A'', S ''B''])"
    by (simp add: match_text_def m0_def m1_def dict_get_def)
  have j: "join_strs separator [S ''A'', S ''B''] = S ''A'' @ [10, 10, 45, 45, 45, 10, 10] @ S ''B''"
    by (simp add: separator_def S_def)
  have nb: "strip (join_strs separator [S ''A'', S ''B'']) \<noteq> []"
    by (simp add: j strip_empty_iff isspace_def S_def)
  note th = context_joins_match_texts[OF e qr ne tx nb, unfolded q j]
  have a: "ask_question ask_env \<lparr>question = S ''Q''\<rparr> [] =
     (Inr \<lparr>answer = S ''answer''\<rparr>,
      [EmbeddingsCreate (S ''text-embedding-3-small'') (S ''Q''),
       IndexQuery [1] 5 True,
       ChatCompletionsCreate (S ''gpt-4o-mini'')
         (chat_messages (S ''Q'') (S ''A'' @ [10, 10, 45, 45, 45, 10, 10] @ S ''B''))])"
    using th[THEN conjunct1] by (simp add: generate_answer_def ask_fields)
  have b: "chat_calls (snd (ask_question ask_env \<lparr>question = S ''Q''\<rparr> [])) =
     [chat_messages (S ''Q'') (S ''A'' @ [10, 10, 45, 45, 45, 10, 10] @ S ''B'')]"
    using th[THEN conjunct2, THEN conjunct1] by simp
  show ?thesis
    by (intro conjI a b)
qed

text \<open>
  Claim C6 says that a match lacking a text field contributes the empty string rather than
  raising an error. The code gives that default only when the \<^verbatim>\<open>"metadata"\<close> key is absent
  or the metadata dictionary has no \<^verbatim>\<open>"text"\<close> key. For a match whose metadata is \<^verbatim>\<open>None\<close>,
  \<^verbatim>\<open>match.get("metadata", {})\<close> returns \<^verbatim>\<open>None\<close> and \<^verbatim>\<open>md.get("text", "")\<close> raises
  \<^verbatim>\<open>AttributeError\<close>: a query that returns the match with text \<^verbatim>\<open>"A"\<close> followed by such a
  match makes \<open>ask_question\<close> fail after the query, with no context and no call to the chat
  model.
\<close>

theorem none_metadata_raises:
  "match_text bare_match =
     Inl (AttributeError ([39] @ S ''NoneType'' @ [39] @ S '' object has no attribute '' @
                          [39] @ S ''get'' @ [39])) \<and>
   ask_question bare_env \<lparr>question = S ''Q''\<rparr> [] =
     (Inl (AttributeError ([39] @ S ''NoneType'' @ [39] @ S '' object has no attribute '' @
                           [39] @ S ''get'' @ [39])),
      [EmbeddingsCreate (S ''text-embedding-3-small'') (S ''Q''), IndexQuery [1] 5 True]) \<and>
   chat_calls (snd (ask_question bare_env \<lparr>question = S ''Q''\<rparr> [])) = []"
proof -
  have mt: "match_text bare_match =
     Inl (AttributeError ([39] @ S ''NoneType'' @ [39] @ S '' object has no attribute '' @
                          [39] @ S ''get'' @ [39]))"
    by (simp add: match_text_def bare_match_def)
  have m0t: "match_text m0 = Inr (PStr (S ''A''))"
    by (simp add: match_text_def m0_def dict_get_def)
  have len: "length (S ''Q'') = 1"
    by (simp add: S_def)
  have run: "ask_question bare_env \<lparr>question = S ''Q''\<rparr> [] =
     (Inl (AttributeError ([39] @ S ''NoneType'' @ [39] @ S '' object has no attribute '' @
                           [39] @ S ''get'' @ [39])),
      [EmbeddingsCreate (S ''text-embedding-3-small'') (S ''Q''), IndexQuery [1] 5 True])"
    by (simp add: ask_question_def get_embedding_def Let_def bare_fields len mt m0t)
  show ?thesis
    by (simp add: run mt)
qed

end
